theory Spec2Isabelle
  imports Main "HOL-Library.Sublist"
begin

section \<open>Data model\<close>

text \<open>
  A Python \<open>str\<close> is modelled as the list of its Unicode code points, so that
  substring tests and splitting count what Python counts. \<open>str\<close> turns an ASCII
  literal into such a list.
\<close>

type_synonym pystr = "nat list"

definition str :: "string \<Rightarrow> pystr" where
  "str s = map of_char s"

text \<open>
  A naive \<open>datetime\<close> without microseconds is the number of seconds since midnight of
  day 0; \<open>datetime.time()\<close> is the number of seconds since midnight of its own day.
  Comparison of \<open>time\<close> objects and subtraction of \<open>datetime\<close> objects are then the
  comparison and subtraction of these integers, and a \<open>timedelta\<close> is a number of
  seconds.
\<close>

definition time_of :: "int \<Rightarrow> int" where
  "time_of dt = dt mod 86400"

text \<open>\<open>time(h, m)\<close>\<close>

definition time_hm :: "int \<Rightarrow> int \<Rightarrow> int" where
  "time_hm h m = h * 3600 + m * 60"

text \<open>A sample is the tuple \<open>(current_index, article_datetime, article_time)\<close>.\<close>

type_synonym sample = "int \<times> int \<times> int"

datatype py_error = ValueError | IndexError | PttError

text \<open>
  A post and a comment are dictionaries; only the keys the crawler reads are kept, each
  absent (\<open>None\<close>) or holding a string or a list. \<open>aid\<close> tells posts apart.
\<close>

record comment =
  author :: "pystr option"
  content :: "pystr option"

record article =
  aid :: pystr
  date :: "pystr option"
  comments :: "comment list option"

text \<open>\<open>article.get('date', '')\<close>, \<open>article.get('comments', [])\<close>, \<open>comment.get('content', '')\<close>, \<open>comment.get('author', '')\<close>\<close>

definition get_date :: "article \<Rightarrow> pystr" where
  "get_date a = (case date a of None \<Rightarrow> [] | Some s \<Rightarrow> s)"

definition get_comments :: "article \<Rightarrow> comment list" where
  "get_comments a = (case comments a of None \<Rightarrow> [] | Some cs \<Rightarrow> cs)"

definition get_content :: "comment \<Rightarrow> pystr" where
  "get_content c = (case content c of None \<Rightarrow> [] | Some s \<Rightarrow> s)"

definition get_author :: "comment \<Rightarrow> pystr" where
  "get_author c = (case author c of None \<Rightarrow> [] | Some s \<Rightarrow> s)"

subsection \<open>The session and the Python library\<close>

text \<open>
  \<open>ptt_bot.get_post\<close> raises, returns something falsy, or returns a post.
  \<open>ptt_bot.get_newest_index\<close> raises (\<open>None\<close>) or returns an index. The board is taken
  as it stands during one query: the same call gives the same answer.
\<close>

datatype post_result = Raises | Missing | Post article

datatype search_type = KEYWORD | AUTHOR

type_synonym search_list = "(search_type \<times> pystr) list option"

record ptt_bot =
  get_newest_index :: "pystr \<Rightarrow> search_list \<Rightarrow> int option"
  get_post :: "pystr \<Rightarrow> int \<Rightarrow> search_list \<Rightarrow> post_result"

text \<open>
  The library functions the crawler calls are parameters of the model:
  \<open>py_int\<close> is \<open>int(s)\<close>, \<open>strptime_post\<close> is
  \<open>datetime.strptime(s, '%a %b %d %H:%M:%S %Y')\<close> and \<open>strptime_day\<close> is
  \<open>datetime.strptime(s, '%Y-%m-%d')\<close>, given as the number of its day; \<open>None\<close> stands
  for \<open>ValueError\<close>. \<open>lower\<close> is \<open>str.lower\<close>.
\<close>

record pylib =
  py_int :: "pystr \<Rightarrow> int option"
  strptime_post :: "pystr \<Rightarrow> int option"
  strptime_day :: "pystr \<Rightarrow> int option"
  lower :: "pystr \<Rightarrow> pystr"

subsection \<open>What a run does besides returning\<close>

text \<open>Every \<open>print\<close> of the crawler, with the values it formats.\<close>

datatype message =
    NewestArticleIndex int
  | SearchingForTimeRange pystr pystr
  | SampleAt int int
  | GoneTooFar
  | FailedToParseDate pystr
  | ErrorFetchingArticle int
  | ReachedSamplingLimit
  | NotEnoughSamples
  | DeterminedArticleRange int int
  | CouldNotDetermineRange
  | FetchingArticles int int
  | FoundArticles nat

datatype io = GetNewestIndex | GetPost int | Print message

text \<open>A run leaves its calls and prints, and raises or returns.\<close>

type_synonym 'a run = "io list \<times> (py_error + 'a)"

text \<open>The indices a run has asked \<open>get_post\<close> for, in order.\<close>

fun fetches :: "io list \<Rightarrow> int list" where
  "fetches [] = []"
| "fetches (GetPost i # tr) = i # fetches tr"
| "fetches (_ # tr) = fetches tr"

text \<open>Truth value of an \<open>Optional[str]\<close>.\<close>

definition truthy :: "pystr option \<Rightarrow> bool" where
  "truthy s = (case s of None \<Rightarrow> False | Some v \<Rightarrow> v \<noteq> [])"

subsection \<open>Parsing \<open>HH:MM\<close>\<close>

text \<open>\<open>s.split(sep)\<close> for a separator of one character.\<close>

fun split_on :: "nat \<Rightarrow> pystr \<Rightarrow> pystr list" where
  "split_on sep [] = [[]]"
| "split_on sep (c # cs) =
     (if c = sep then [] # split_on sep cs
      else (case split_on sep cs of [] \<Rightarrow> [[c]] | p # ps \<Rightarrow> (c # p) # ps))"

text \<open>\<open>h, m = map(int, s.split(':'))\<close>: \<open>ValueError\<close> unless there are two parts, both integers.\<close>

definition hh_mm :: "pylib \<Rightarrow> pystr \<Rightarrow> (int \<times> int) option" where
  "hh_mm lib s =
     (case split_on 58 s of
        [a, b] \<Rightarrow>
          (case py_int lib a of
             None \<Rightarrow> None
           | Some h \<Rightarrow> (case py_int lib b of None \<Rightarrow> None | Some m \<Rightarrow> Some (h, m)))
      | _ \<Rightarrow> None)"

text \<open>\<open>time(h, m)\<close> raises \<open>ValueError\<close> outside \<open>0..23\<close> and \<open>0..59\<close>.\<close>

definition py_time :: "int \<times> int \<Rightarrow> int option" where
  "py_time hm =
     (if 0 \<le> fst hm \<and> fst hm < 24 \<and> 0 \<le> snd hm \<and> snd hm < 60
      then Some (time_hm (fst hm) (snd hm)) else None)"

text \<open>
  The four lines that parse the window, in the source's order: both strings are split
  and converted before either \<open>time\<close> is built.
\<close>

definition parse_window :: "pylib \<Rightarrow> pystr \<Rightarrow> pystr \<Rightarrow> (int \<times> int) option" where
  "parse_window lib start_time end_time =
     (case hh_mm lib start_time of
        None \<Rightarrow> None
      | Some s \<Rightarrow>
          (case hh_mm lib end_time of
             None \<Rightarrow> None
           | Some e \<Rightarrow>
               (case py_time s of
                  None \<Rightarrow> None
                | Some target_start \<Rightarrow>
                    (case py_time e of
                       None \<Rightarrow> None
                     | Some target_end \<Rightarrow> Some (target_start, target_end)))))"

section \<open>Sampling (\<open>find_article_range_by_time\<close>, first half)\<close>

text \<open>
  The test that ends the sampling early, on the samples with the new one appended.
  Both calls of \<open>datetime.today()\<close> are taken to fall on the same day, so that
  \<open>time_delta\<close> is the difference of the two times of day.
\<close>

definition gone_too_far :: "sample list \<Rightarrow> int \<Rightarrow> bool" where
  "gone_too_far samples target_start =
     (length samples \<ge> 2 \<and>
      (let time_diff = fst (snd (samples ! (length samples - 2))) - fst (snd (last samples));
           article_time = snd (snd (last samples))
       in article_time < target_start \<and>
          (let tolerance = max 600 \<bar>time_diff\<bar>;
               time_delta = target_start - article_time
           in \<bar>time_delta\<bar> > tolerance * 2)))"

text \<open>
  The body of the \<open>while\<close> loop up to \<open>current_index -= sample_interval\<close>: the samples
  afterwards, what was called and printed, and whether the body left the loop by \<open>break\<close>.
\<close>

definition sample_body ::
  "ptt_bot \<Rightarrow> pylib \<Rightarrow> pystr \<Rightarrow> search_list \<Rightarrow> int \<Rightarrow> int \<Rightarrow> sample list
     \<Rightarrow> sample list \<times> io list \<times> bool" where
  "sample_body api lib board sl target_start current_index samples =
     (case get_post api board current_index sl of
        Raises \<Rightarrow> (samples, [GetPost current_index, Print (ErrorFetchingArticle current_index)], False)
      | Missing \<Rightarrow> (samples, [GetPost current_index], False)
      | Post a \<Rightarrow>
          (case strptime_post lib (get_date a) of
             None \<Rightarrow> (samples, [GetPost current_index, Print (FailedToParseDate (get_date a))], False)
           | Some article_datetime \<Rightarrow>
               (let article_time = time_of article_datetime;
                    samples' = samples @ [(current_index, article_datetime, article_time)]
                in if gone_too_far samples' target_start
                   then (samples', [GetPost current_index, Print (SampleAt current_index article_time),
                                    Print GoneTooFar], True)
                   else (samples', [GetPost current_index, Print (SampleAt current_index article_time)],
                         False))))"

text \<open>
  The \<open>while\<close> loop. It need not end for every \<open>sample_interval\<close>, so not returning is
  the value \<open>None\<close>.
\<close>

partial_function (option) sample_loop ::
  "ptt_bot \<Rightarrow> pylib \<Rightarrow> pystr \<Rightarrow> search_list \<Rightarrow> int \<Rightarrow> int \<Rightarrow> int \<Rightarrow> sample list \<Rightarrow> io list
     \<Rightarrow> (sample list \<times> io list) option" where
  "sample_loop api lib board sl target_start sample_interval current_index samples tr =
     (if current_index > 0
      then (if snd (snd (sample_body api lib board sl target_start current_index samples))
            then Some (fst (sample_body api lib board sl target_start current_index samples),
                       tr @ fst (snd (sample_body api lib board sl target_start current_index samples)))
            else if length (fst (sample_body api lib board sl target_start current_index samples)) \<ge> 1000
            then Some (fst (sample_body api lib board sl target_start current_index samples),
                       tr @ fst (snd (sample_body api lib board sl target_start current_index samples))
                          @ [Print ReachedSamplingLimit])
            else sample_loop api lib board sl target_start sample_interval
                   (current_index - sample_interval)
                   (fst (sample_body api lib board sl target_start current_index samples))
                   (tr @ fst (snd (sample_body api lib board sl target_start current_index samples))))
      else Some (samples, tr))"


section \<open>Range determination (\<open>find_article_range_by_time\<close>, second half)\<close>

text \<open>
  The \<open>for\<close> loop over the samples. The last argument is \<open>end_index\<close>, which the
  loop carries from one sample to the next; the second component of the result is
  \<open>start_index\<close>, which is only ever set in the iteration that leaves the loop.
\<close>

fun scan_samples :: "sample list \<Rightarrow> int \<Rightarrow> int \<Rightarrow> int \<Rightarrow> int option \<Rightarrow> int option \<times> int option" where
  "scan_samples [] target_start target_end sample_interval end_index = (end_index, None)"
| "scan_samples ((idx, dt, t) # rest) target_start target_end sample_interval end_index =
     (let end_index' = (if t \<le> target_end \<and> end_index = None
                        then Some (idx + sample_interval) else end_index)
      in if t \<le> target_start
         then (end_index', Some (max 1 (idx - sample_interval)))
         else scan_samples rest target_start target_end sample_interval end_index')"

text \<open>
  The loop followed by the two defaults. \<open>samples[0]\<close> and \<open>samples[-1]\<close> raise
  \<open>IndexError\<close> on an empty list. The result is \<open>(start_index, end_index)\<close>.
\<close>

definition determine_range :: "sample list \<Rightarrow> int \<Rightarrow> int \<Rightarrow> int \<Rightarrow> py_error + (int \<times> int)" where
  "determine_range samples target_start target_end sample_interval =
     (let r = scan_samples samples target_start target_end sample_interval None
      in case (case fst r of
                 None \<Rightarrow> (case samples of [] \<Rightarrow> Inl IndexError | s # _ \<Rightarrow> Inr (fst s))
               | Some e \<Rightarrow> Inr e) of
           Inl err \<Rightarrow> Inl err
         | Inr end_index \<Rightarrow>
             (case snd r of
                None \<Rightarrow> (if samples = [] then Inl IndexError
                         else Inr (max 1 (fst (last samples) - sample_interval), end_index))
              | Some start_index \<Rightarrow> Inr (start_index, end_index)))"

text \<open>
  \<open>find_article_range_by_time\<close>: the window is parsed, the newest index asked for, the
  samples collected and the range determined. \<open>None\<close> inside the result is the tuple
  \<open>(None, None)\<close>; \<open>None\<close> outside is a sampling loop that does not return.
\<close>

definition find_article_range_by_time ::
  "ptt_bot \<Rightarrow> pylib \<Rightarrow> pystr \<Rightarrow> pystr \<Rightarrow> pystr \<Rightarrow> search_list \<Rightarrow> int
     \<Rightarrow> ((int \<times> int) option) run option" where
  "find_article_range_by_time api lib board start_time end_time sl sample_interval =
     (case parse_window lib start_time end_time of
        None \<Rightarrow> Some ([], Inl ValueError)
      | Some (target_start, target_end) \<Rightarrow>
          (case get_newest_index api board sl of
             None \<Rightarrow> Some ([GetNewestIndex], Inl PttError)
           | Some newest_index \<Rightarrow>
               (case sample_loop api lib board sl target_start sample_interval newest_index []
                       [GetNewestIndex, Print (NewestArticleIndex newest_index),
                        Print (SearchingForTimeRange start_time end_time)] of
                  None \<Rightarrow> None
                | Some (samples, tr) \<Rightarrow>
                    (if length samples < 2
                     then Some (tr @ [Print NotEnoughSamples], Inr None)
                     else (case determine_range samples target_start target_end sample_interval of
                             Inl err \<Rightarrow> Some (tr, Inl err)
                           | Inr (start_index, end_index) \<Rightarrow>
                               Some (tr @ [Print (DeterminedArticleRange start_index end_index)],
                                     Inr (Some (start_index, end_index))))))))"

section \<open>Fetching and filtering\<close>

text \<open>
  The loop \<open>for i in range(...)\<close> around \<open>get_post\<close> that the count-based and the
  time-based paths share: a post is kept, a falsy answer is skipped, an exception is
  printed and skipped.
\<close>

fun fetch_posts :: "ptt_bot \<Rightarrow> pystr \<Rightarrow> search_list \<Rightarrow> int list \<Rightarrow> io list \<times> article list" where
  "fetch_posts api board sl [] = ([], [])"
| "fetch_posts api board sl (i # rest) =
     (case get_post api board i sl of
        Raises \<Rightarrow> (GetPost i # Print (ErrorFetchingArticle i) # fst (fetch_posts api board sl rest),
                   snd (fetch_posts api board sl rest))
      | Missing \<Rightarrow> (GetPost i # fst (fetch_posts api board sl rest),
                    snd (fetch_posts api board sl rest))
      | Post a \<Rightarrow> (GetPost i # fst (fetch_posts api board sl rest),
                   a # snd (fetch_posts api board sl rest)))"

text \<open>The exact filter by time of day at the end of \<open>_get_articles_by_time_range\<close>.\<close>

fun filter_by_time :: "pylib \<Rightarrow> int \<Rightarrow> int \<Rightarrow> article list \<Rightarrow> article list" where
  "filter_by_time lib start_time_obj end_time_obj [] = []"
| "filter_by_time lib start_time_obj end_time_obj (a # rest) =
     (if get_date a = [] then filter_by_time lib start_time_obj end_time_obj rest
      else (case strptime_post lib (get_date a) of
              None \<Rightarrow> filter_by_time lib start_time_obj end_time_obj rest
            | Some article_datetime \<Rightarrow>
                (if start_time_obj \<le> time_of article_datetime \<and> time_of article_datetime \<le> end_time_obj
                 then a # filter_by_time lib start_time_obj end_time_obj rest
                 else filter_by_time lib start_time_obj end_time_obj rest)))"

text \<open>\<open>_get_articles_by_time_range\<close>; it calls the locator with the default interval of 100.\<close>

definition get_articles_by_time_range ::
  "ptt_bot \<Rightarrow> pylib \<Rightarrow> pystr \<Rightarrow> pystr \<Rightarrow> pystr \<Rightarrow> search_list \<Rightarrow> (article list) run option" where
  "get_articles_by_time_range api lib board start_time end_time sl =
     (case find_article_range_by_time api lib board start_time end_time sl 100 of
        None \<Rightarrow> None
      | Some (tr, Inl err) \<Rightarrow> Some (tr, Inl err)
      | Some (tr, Inr None) \<Rightarrow> Some (tr @ [Print CouldNotDetermineRange], Inr [])
      | Some (tr, Inr (Some (start_index, end_index))) \<Rightarrow>
          (let fetched = fetch_posts api board sl [start_index..end_index];
               tr' = tr @ [Print (FetchingArticles start_index end_index)] @ fst fetched
           in case parse_window lib start_time end_time of
                None \<Rightarrow> Some (tr', Inl ValueError)
              | Some (start_time_obj, end_time_obj) \<Rightarrow>
                  (let filtered_articles = filter_by_time lib start_time_obj end_time_obj (snd fetched)
                   in Some (tr' @ [Print (FoundArticles (length filtered_articles))],
                            Inr filtered_articles))))"

section \<open>The queries\<close>

definition get_articles ::
  "ptt_bot \<Rightarrow> pylib \<Rightarrow> pystr \<Rightarrow> int \<Rightarrow> pystr option \<Rightarrow> pystr option \<Rightarrow> (article list) run option" where
  "get_articles api lib board count start_time end_time =
     (if truthy start_time \<and> truthy end_time
      then get_articles_by_time_range api lib board (the start_time) (the end_time) None
      else (case get_newest_index api board None of
              None \<Rightarrow> Some ([GetNewestIndex], Inl PttError)
            | Some newest_index \<Rightarrow>
                (let fetched = fetch_posts api board None [max 1 (newest_index - count + 1)..newest_index]
                 in Some (GetNewestIndex # fst fetched, Inr (snd fetched)))))"

text \<open>
  \<open>search_by_title\<close> and \<open>search_by_author\<close> differ from \<open>get_articles\<close> in the search
  list they pass and in catching the exception of \<open>get_newest_index\<close>.
\<close>

definition search_by_title ::
  "ptt_bot \<Rightarrow> pylib \<Rightarrow> pystr \<Rightarrow> pystr \<Rightarrow> int \<Rightarrow> pystr option \<Rightarrow> pystr option
     \<Rightarrow> (article list) run option" where
  "search_by_title api lib board keyword count start_time end_time =
     (let search_list = Some [(KEYWORD, keyword)]
      in if truthy start_time \<and> truthy end_time
         then get_articles_by_time_range api lib board (the start_time) (the end_time) search_list
         else (case get_newest_index api board search_list of
                 None \<Rightarrow> Some ([GetNewestIndex], Inr [])
               | Some newest_index \<Rightarrow>
                   (let fetched = fetch_posts api board search_list
                                    [max 1 (newest_index - count + 1)..newest_index]
                    in Some (GetNewestIndex # fst fetched, Inr (snd fetched)))))"

definition search_by_author ::
  "ptt_bot \<Rightarrow> pylib \<Rightarrow> pystr \<Rightarrow> pystr \<Rightarrow> int \<Rightarrow> pystr option \<Rightarrow> pystr option
     \<Rightarrow> (article list) run option" where
  "search_by_author api lib board author_id count start_time end_time =
     (let search_list = Some [(AUTHOR, author_id)]
      in if truthy start_time \<and> truthy end_time
         then get_articles_by_time_range api lib board (the start_time) (the end_time) search_list
         else (case get_newest_index api board search_list of
                 None \<Rightarrow> Some ([GetNewestIndex], Inr [])
               | Some newest_index \<Rightarrow>
                   (let fetched = fetch_posts api board search_list
                                    [max 1 (newest_index - count + 1)..newest_index]
                    in Some (GetNewestIndex # fst fetched, Inr (snd fetched)))))"

subsection \<open>Searching the comments\<close>

text \<open>\<open>sub in s\<close> on strings.\<close>

fun starts_with :: "pystr \<Rightarrow> pystr \<Rightarrow> bool" where
  "starts_with [] s = True"
| "starts_with (x # xs) [] = False"
| "starts_with (x # xs) (c # cs) = (x = c \<and> starts_with xs cs)"

fun py_in :: "pystr \<Rightarrow> pystr \<Rightarrow> bool" where
  "py_in sub [] = (sub = [])"
| "py_in sub (c # cs) = (starts_with sub (c # cs) \<or> py_in sub cs)"

text \<open>
  The inner loop over the comments of one post: the post is appended at the first
  comment that matches, and \<open>break\<close> leaves the loop.
\<close>

fun match_comments :: "pylib \<Rightarrow> pystr \<Rightarrow> article \<Rightarrow> comment list \<Rightarrow> article list \<Rightarrow> article list" where
  "match_comments lib keyword a [] matched_articles = matched_articles"
| "match_comments lib keyword a (c # cs) matched_articles =
     (if py_in (lower lib keyword) (lower lib (get_content c))
      then matched_articles @ [a]
      else match_comments lib keyword a cs matched_articles)"

text \<open>The outer loop over the posts.\<close>

fun match_articles :: "pylib \<Rightarrow> pystr \<Rightarrow> article list \<Rightarrow> article list \<Rightarrow> article list" where
  "match_articles lib keyword [] matched_articles = matched_articles"
| "match_articles lib keyword (a # rest) matched_articles =
     match_articles lib keyword rest (match_comments lib keyword a (get_comments a) matched_articles)"

definition search_by_comment_content ::
  "ptt_bot \<Rightarrow> pylib \<Rightarrow> pystr \<Rightarrow> pystr \<Rightarrow> int \<Rightarrow> pystr option \<Rightarrow> pystr option
     \<Rightarrow> (article list) run option" where
  "search_by_comment_content api lib board keyword count start_time end_time =
     (case get_articles api lib board count start_time end_time of
        None \<Rightarrow> None
      | Some (tr, Inl err) \<Rightarrow> Some (tr, Inl err)
      | Some (tr, Inr all_articles) \<Rightarrow> Some (tr, Inr (match_articles lib keyword all_articles [])))"

text \<open>The same nesting in \<open>search_comments_by_author\<close>, comparing the comment's author.\<close>

fun match_comment_authors :: "pylib \<Rightarrow> pystr \<Rightarrow> article \<Rightarrow> comment list \<Rightarrow> article list \<Rightarrow> article list" where
  "match_comment_authors lib author_id a [] matched_articles = matched_articles"
| "match_comment_authors lib author_id a (c # cs) matched_articles =
     (if lower lib (get_author c) = lower lib author_id
      then matched_articles @ [a]
      else match_comment_authors lib author_id a cs matched_articles)"

fun match_author_articles :: "pylib \<Rightarrow> pystr \<Rightarrow> article list \<Rightarrow> article list \<Rightarrow> article list" where
  "match_author_articles lib author_id [] matched_articles = matched_articles"
| "match_author_articles lib author_id (a # rest) matched_articles =
     match_author_articles lib author_id rest
       (match_comment_authors lib author_id a (get_comments a) matched_articles)"

definition search_comments_by_author ::
  "ptt_bot \<Rightarrow> pylib \<Rightarrow> pystr \<Rightarrow> pystr \<Rightarrow> pystr option \<Rightarrow> pystr option \<Rightarrow> int
     \<Rightarrow> (article list) run option" where
  "search_comments_by_author api lib board author_id start_time end_time count =
     (case get_articles api lib board count start_time end_time of
        None \<Rightarrow> None
      | Some (tr, Inl err) \<Rightarrow> Some (tr, Inl err)
      | Some (tr, Inr all_articles) \<Rightarrow>
          Some (tr, Inr (match_author_articles lib author_id all_articles [])))"

subsection \<open>Calendar dates\<close>

text \<open>
  The loop of \<open>get_articles_by_date_range\<close> over the indices it is given, newest first.
  \<open>start\<close> and \<open>end\<close> are datetimes.
\<close>

fun date_scan ::
  "ptt_bot \<Rightarrow> pylib \<Rightarrow> pystr \<Rightarrow> int \<Rightarrow> int \<Rightarrow> int list \<Rightarrow> io list \<times> article list" where
  "date_scan api lib board start end [] = ([], [])"
| "date_scan api lib board start end (i # rest) =
     (case get_post api board i None of
        Raises \<Rightarrow> (GetPost i # Print (ErrorFetchingArticle i) # fst (date_scan api lib board start end rest),
                   snd (date_scan api lib board start end rest))
      | Missing \<Rightarrow> (GetPost i # fst (date_scan api lib board start end rest),
                    snd (date_scan api lib board start end rest))
      | Post a \<Rightarrow>
          (case strptime_post lib (get_date a) of
             None \<Rightarrow> (GetPost i # fst (date_scan api lib board start end rest),
                      snd (date_scan api lib board start end rest))
           | Some article_date \<Rightarrow>
               (if start \<le> article_date \<and> article_date \<le> end
                then (GetPost i # fst (date_scan api lib board start end rest),
                      a # snd (date_scan api lib board start end rest))
                else if article_date < start
                then ([GetPost i], [])
                else (GetPost i # fst (date_scan api lib board start end rest),
                      snd (date_scan api lib board start end rest)))))"

text \<open>\<open>range(newest_index, max(1, newest_index - 1000), -1)\<close>\<close>

definition scan_indices :: "int \<Rightarrow> int list" where
  "scan_indices newest_index = rev [max 1 (newest_index - 1000) + 1..newest_index]"

text \<open>A date parsed with \<open>'%Y-%m-%d'\<close> is the midnight that begins its day.\<close>

definition get_articles_by_date_range ::
  "ptt_bot \<Rightarrow> pylib \<Rightarrow> pystr \<Rightarrow> pystr \<Rightarrow> pystr \<Rightarrow> (article list) run" where
  "get_articles_by_date_range api lib board start_date end_date =
     (case strptime_day lib start_date of
        None \<Rightarrow> ([], Inl ValueError)
      | Some start_day \<Rightarrow>
          (case strptime_day lib end_date of
             None \<Rightarrow> ([], Inl ValueError)
           | Some end_day \<Rightarrow>
               (case get_newest_index api board None of
                  None \<Rightarrow> ([GetNewestIndex], Inl PttError)
                | Some newest_index \<Rightarrow>
                    (let scanned_posts = date_scan api lib board (start_day * 86400) (end_day * 86400)
                                           (scan_indices newest_index)
                     in (GetNewestIndex # fst scanned_posts, Inr (snd scanned_posts))))))"

subsection \<open>The locator as the specification words it\<close>

definition first_le :: "int \<Rightarrow> sample list \<Rightarrow> sample option" where
  "first_le x samples = find (\<lambda>s. snd (snd s) \<le> x) samples"

text \<open>The samples the scan visits: all up to and including the first one at or before the window start.\<close>

fun scanned :: "int \<Rightarrow> sample list \<Rightarrow> sample list" where
  "scanned window_start [] = []"
| "scanned window_start (s # rest) =
     (if snd (snd s) \<le> window_start then [s] else s # scanned window_start rest)"

definition spec_high :: "sample list \<Rightarrow> int \<Rightarrow> int \<Rightarrow> int \<Rightarrow> int" where
  "spec_high samples window_start window_end stride =
     (case first_le window_end (scanned window_start samples) of
        Some s \<Rightarrow> fst s + stride
      | None \<Rightarrow> fst (hd samples))"

definition spec_low :: "sample list \<Rightarrow> int \<Rightarrow> int \<Rightarrow> int" where
  "spec_low samples window_start stride =
     (case first_le window_start samples of
        Some s \<Rightarrow> max 1 (fst s - stride)
      | None \<Rightarrow> max 1 (fst (last samples) - stride))"

definition scenario_samples :: "sample list" where
  "scenario_samples =
     [(1000, time_hm 15 0, time_hm 15 0), (900, time_hm 14 30, time_hm 14 30),
      (800, time_hm 13 50, time_hm 13 50), (700, time_hm 13 0, time_hm 13 0)]"

subsection \<open>Shapes of sample sequences and of index walks\<close>

text \<open>Samples in strictly descending order of index.\<close>

definition descending :: "sample list \<Rightarrow> bool" where
  "descending samples = sorted_wrt (\<lambda>a b. fst b < fst a) samples"

text \<open>The first \<open>m\<close> indices of the walk that starts at an index and steps down by the interval.\<close>

fun walk :: "int \<Rightarrow> int \<Rightarrow> nat \<Rightarrow> int list" where
  "walk current_index sample_interval 0 = []"
| "walk current_index sample_interval (Suc m) =
     current_index # walk (current_index - sample_interval) sample_interval m"

subsection \<open>The early stop as the specification words it\<close>

text \<open>
  Both of the two most recent samples are earlier than the window start by more than
  the tolerance, which is twice the larger of ten minutes and the distance between the
  two samples.
\<close>

definition spec_early_stop :: "sample list \<Rightarrow> int \<Rightarrow> bool" where
  "spec_early_stop samples window_start =
     (length samples \<ge> 2 \<and>
      (let previous = samples ! (length samples - 2);
           latest = last samples;
           tolerance = max 600 \<bar>fst (snd previous) - fst (snd latest)\<bar> * 2
       in window_start - snd (snd previous) > tolerance
          \<and> window_start - snd (snd latest) > tolerance))"

subsection \<open>The predicates as the specification words them\<close>

text \<open>Some comment's content contains the keyword, both in lower case.\<close>

definition spec_comment_contains :: "pylib \<Rightarrow> pystr \<Rightarrow> article \<Rightarrow> bool" where
  "spec_comment_contains lib keyword a =
     (\<exists>c \<in> set (get_comments a).
        \<exists>before after. lower lib (get_content c) = before @ lower lib keyword @ after)"

text \<open>The time of day of the post's date lies in the window; a date that does not parse is out.\<close>

definition spec_time_of_day_within :: "pylib \<Rightarrow> int \<Rightarrow> int \<Rightarrow> article \<Rightarrow> bool" where
  "spec_time_of_day_within lib window_start window_end a =
     (case strptime_post lib (get_date a) of
        None \<Rightarrow> False
      | Some dt \<Rightarrow> window_start \<le> time_of dt \<and> time_of dt \<le> window_end)"

text \<open>
  The timestamp lies in the calendar window from the start day to the end day, the
  whole of the end day included.
\<close>

definition spec_calendar_within :: "int \<Rightarrow> int \<Rightarrow> int \<Rightarrow> bool" where
  "spec_calendar_within start_day end_day dt =
     (start_day * 86400 \<le> dt \<and> dt < (end_day + 1) * 86400)"

section \<open>Concrete boards and a concrete library\<close>

text \<open>
  Stand-ins for the library on the inputs used below: \<open>int\<close> on strings of decimal
  digits, \<open>str.lower\<close> on strings whose cased characters are ASCII letters, and
  \<open>strptime\<close> on a handful of dates, a datetime being counted from day 0 of the
  proleptic Gregorian calendar (the fourth of October 2025 is day 739528).
\<close>

definition digits_int :: "pystr \<Rightarrow> int option" where
  "digits_int s =
     (if s \<noteq> [] \<and> list_all (\<lambda>c. 48 \<le> c \<and> c \<le> 57) s
      then Some (foldl (\<lambda>n c. 10 * n + (int c - 48)) 0 s) else None)"

definition ascii_lower :: "pystr \<Rightarrow> pystr" where
  "ascii_lower s = map (\<lambda>c. if 65 \<le> c \<and> c \<le> 90 then c + 32 else c) s"

definition at_day :: "int \<Rightarrow> int \<Rightarrow> int \<Rightarrow> int \<Rightarrow> int" where
  "at_day day h m sec = day * 86400 + h * 3600 + m * 60 + sec"

definition demo_strptime_post :: "pystr \<Rightarrow> int option" where
  "demo_strptime_post s =
     map_of [(str ''Sat Oct  4 13:30:00 2025'', at_day 739528 13 30 0),
             (str ''Sat Oct  4 12:00:00 2025'', at_day 739528 12 0 0),
             (str ''Fri Oct  3 10:00:00 2025'', at_day 739527 10 0 0),
             (str ''Wed Oct  1 09:00:00 2025'', at_day 739525 9 0 0),
             (str ''Tue Sep 30 23:00:00 2025'', at_day 739524 23 0 0)] s"

definition demo_strptime_day :: "pystr \<Rightarrow> int option" where
  "demo_strptime_day s =
     map_of [(str ''2025-10-01'', 739525), (str ''2025-10-03'', 739527)] s"

definition demo_lib :: pylib where
  "demo_lib = \<lparr>py_int = digits_int, strptime_post = demo_strptime_post,
               strptime_day = demo_strptime_day, lower = ascii_lower\<rparr>"

definition post_dated :: "string \<Rightarrow> string \<Rightarrow> article" where
  "post_dated a d = \<lparr>aid = str a, date = Some (str d), comments = None\<rparr>"

text \<open>A board of 150 posts of which the sampling walk meets two, at 13:30 and at 12:00.\<close>

definition demo_api :: ptt_bot where
  "demo_api =
     \<lparr>get_newest_index = (\<lambda>board sl. Some 150),
      get_post = (\<lambda>board i sl.
         if i = 150 then Post (post_dated ''M.150'' ''Sat Oct  4 13:30:00 2025'')
         else if i = 50 then Post (post_dated ''M.50'' ''Sat Oct  4 12:00:00 2025'')
         else Missing)\<rparr>"

text \<open>The samples the walk collects on it.\<close>

definition demo_samples :: "sample list" where
  "demo_samples = [(150, at_day 739528 13 30 0, time_hm 13 30), (50, at_day 739528 12 0 0, time_hm 12 0)]"

text \<open>The same board when it held 50 posts.\<close>

definition small_api :: ptt_bot where
  "small_api = demo_api\<lparr>get_newest_index := (\<lambda>board sl. Some 50)\<rparr>"


text \<open>
  A board of five posts: the newest posted on the third of October at 10:00, the one
  before on the first of October at 09:00, the one before on the thirtieth of September.
\<close>

definition october_api :: ptt_bot where
  "october_api =
     \<lparr>get_newest_index = (\<lambda>board sl. Some 5),
      get_post = (\<lambda>board i sl.
         if i = 5 then Post (post_dated ''M.5'' ''Fri Oct  3 10:00:00 2025'')
         else if i = 4 then Post (post_dated ''M.4'' ''Wed Oct  1 09:00:00 2025'')
         else if i = 3 then Post (post_dated ''M.3'' ''Tue Sep 30 23:00:00 2025'')
         else Missing)\<rparr>"

text \<open>Two posts with one comment each, \<open>U+597D U+6587 U+63A8\<close> and \<open>U+7121 U+95DC\<close>.\<close>

definition commented :: "string \<Rightarrow> pystr \<Rightarrow> article" where
  "commented a c = \<lparr>aid = str a, date = None,
                    comments = Some [\<lparr>author = Some (str ''someone''), content = Some c\<rparr>]\<rparr>"

definition post_with_push :: article where
  "post_with_push = commented ''M.1'' [22909, 25991, 25512]"

definition post_without_push :: article where
  "post_without_push = commented ''M.2'' [28961, 38364]"

text \<open>A post without a date and one whose date does not parse.\<close>

definition undated :: article where
  "undated = \<lparr>aid = str ''M.7'', date = None, comments = None\<rparr>"

definition misdated :: article where
  "misdated = \<lparr>aid = str ''M.8'', date = Some (str ''yesterday''), comments = None\<rparr>"



section \<open>Properties\<close>

lemma scan_samples_fst:
  "fst (scan_samples samples ts te si e) =
     (case e of Some v \<Rightarrow> Some v
      | None \<Rightarrow> map_option (\<lambda>s. fst s + si) (first_le te (scanned ts samples)))"
  by (induction samples ts te si e rule: scan_samples.induct)
     (auto simp: first_le_def Let_def split: option.splits)

lemma scan_samples_snd:
  "snd (scan_samples samples ts te si e) =
     map_option (\<lambda>s. max 1 (fst s - si)) (first_le ts samples)"
  by (induction samples ts te si e rule: scan_samples.induct)
     (auto simp: first_le_def Let_def)

lemma first_le_scanned:
  "ts \<le> te \<Longrightarrow> first_le te (scanned ts samples) = first_le te samples"
  by (induction samples) (auto simp: first_le_def)


subsection \<open>The sampling loop\<close>

lemma sample_loop_stop:
  "\<not> 0 < cur \<Longrightarrow> sample_loop api lib board sl ts si cur samples tr = Some (samples, tr)"
  by (subst sample_loop.simps) simp

lemma sample_loop_step:
  "0 < cur \<Longrightarrow> sample_loop api lib board sl ts si cur samples tr =
     (if snd (snd (sample_body api lib board sl ts cur samples))
      then Some (fst (sample_body api lib board sl ts cur samples),
                 tr @ fst (snd (sample_body api lib board sl ts cur samples)))
      else if length (fst (sample_body api lib board sl ts cur samples)) \<ge> 1000
      then Some (fst (sample_body api lib board sl ts cur samples),
                 tr @ fst (snd (sample_body api lib board sl ts cur samples)) @ [Print ReachedSamplingLimit])
      else sample_loop api lib board sl ts si (cur - si)
             (fst (sample_body api lib board sl ts cur samples))
             (tr @ fst (snd (sample_body api lib board sl ts cur samples))))"
  by (subst sample_loop.simps) simp

lemma sample_body_samples:
  "fst (sample_body api lib board sl ts cur samples) = samples \<or>
   (\<exists>dt. fst (sample_body api lib board sl ts cur samples) = samples @ [(cur, dt, time_of dt)])"
  by (simp add: sample_body_def Let_def split: post_result.splits option.splits)

lemma sample_body_fetches:
  "fetches (fst (snd (sample_body api lib board sl ts cur samples))) = [cur]"
  by (simp add: sample_body_def Let_def split: post_result.splits option.splits)

lemma fetches_append: "fetches (xs @ ys) = fetches xs @ fetches ys"
  by (induction xs rule: fetches.induct) simp_all

lemma sample_loop_returns:
  assumes "0 < si"
  shows "\<exists>ns tr2 m. sample_loop api lib board sl ts si cur samples tr = Some (samples @ ns, tr @ tr2)
           \<and> descending ns \<and> (\<forall>s\<in>set ns. 0 < fst s \<and> fst s \<le> cur)
           \<and> length (samples @ ns) \<le> max 1000 (length samples + 1)
           \<and> fetches tr2 = walk cur si m \<and> (\<forall>i\<in>set (walk cur si m). 0 < i) \<and> length ns \<le> m
           \<and> (0 < cur \<longrightarrow> 0 < m)"
proof (induction "nat cur" arbitrary: cur samples tr rule: less_induct)
  case less
  show ?case
  proof (cases "0 < cur")
    case False
    then have "sample_loop api lib board sl ts si cur samples tr = Some (samples @ [], tr @ [])"
      by (simp add: sample_loop_stop)
    moreover have "fetches [] = walk cur si 0" by simp
    ultimately show ?thesis
      using False by (intro exI[of _ "[]"] exI[of _ "0"]) (simp add: descending_def)
  next
    case True
    let ?b = "sample_body api lib board sl ts cur samples"
    obtain n1 where n1: "fst ?b = samples @ n1" "n1 = [] \<or> (\<exists>dt. n1 = [(cur, dt, time_of dt)])"
      using sample_body_samples[of api lib board sl ts cur samples] by auto
    have f1: "fetches (fst (snd ?b)) = [cur]" by (rule sample_body_fetches)
    have n1_props: "descending n1" "\<forall>s\<in>set n1. 0 < fst s \<and> fst s \<le> cur" "length n1 \<le> 1"
      using n1(2) True by (auto simp: descending_def)
    show ?thesis
    proof (cases "snd (snd ?b) \<or> length (fst ?b) \<ge> 1000")
      case stop: True
      define tr2 where "tr2 = (if snd (snd ?b) then fst (snd ?b) else fst (snd ?b) @ [Print ReachedSamplingLimit])"
      have r: "sample_loop api lib board sl ts si cur samples tr = Some (samples @ n1, tr @ tr2)"
        using True stop n1(1) by (auto simp: sample_loop_step tr2_def)
      have ft: "fetches tr2 = walk cur si 1"
        using f1 by (simp add: tr2_def fetches_append)
      have pw: "\<forall>i\<in>set (walk cur si 1). 0 < i" using True by simp
      have "length (samples @ n1) \<le> max 1000 (length samples + 1)"
        using n1_props(3) by simp
      then show ?thesis
        using r ft pw n1_props
        by (intro exI[of _ n1] exI[of _ tr2] exI[of _ "1::nat"]) blast
    next
      case cont: False
      have lt: "nat (cur - si) < nat cur" using True assms by simp
      from less[OF lt, of "fst ?b" "tr @ fst (snd ?b)"]
      obtain ns tr2 m where
        r: "sample_loop api lib board sl ts si (cur - si) (fst ?b) (tr @ fst (snd ?b)) = Some (fst ?b @ ns, (tr @ fst (snd ?b)) @ tr2)"
        and d: "descending ns" and b: "\<forall>s\<in>set ns. 0 < fst s \<and> fst s \<le> cur - si"
        and l: "length (fst ?b @ ns) \<le> max 1000 (length (fst ?b) + 1)"
        and f: "fetches tr2 = walk (cur - si) si m" and p: "\<forall>i\<in>set (walk (cur - si) si m). 0 < i"
        and lm: "length ns \<le> m"
        by blast
      have r': "sample_loop api lib board sl ts si cur samples tr = Some (samples @ (n1 @ ns), tr @ (fst (snd ?b) @ tr2))"
        using True cont r n1(1) by (simp add: sample_loop_step)
      have d': "descending (n1 @ ns)"
        using d b n1(2) assms by (auto simp: descending_def sorted_wrt_append)
      have b': "\<forall>s\<in>set (n1 @ ns). 0 < fst s \<and> fst s \<le> cur"
        using b n1_props(2) assms by auto
      have l': "length (samples @ (n1 @ ns)) \<le> max 1000 (length samples + 1)"
        using l cont n1(1) n1_props(3) by auto
      have f': "fetches (fst (snd ?b) @ tr2) = walk cur si (Suc m)"
        using f f1 by (simp add: fetches_append)
      have p': "\<forall>i\<in>set (walk cur si (Suc m)). 0 < i" using p True by simp
      have lm': "length (n1 @ ns) \<le> Suc m" using lm n1_props(3) by simp
      show ?thesis
        using r' d' b' l' f' p' lm'
        by (intro exI[of _ "n1 @ ns"] exI[of _ "fst (snd ?b) @ tr2"] exI[of _ "Suc m"]) blast
    qed
  qed
qed


subsection \<open>The range locator\<close>

text \<open>
  Claim C1. For at least two samples and any window, the locator returns as \<open>high\<close> the
  index of the first sample at or before the window end, plus the stride, and the
  newest sampled index when there is none; as \<open>low\<close> the index of the first sample at or
  before the window start, minus the stride and not below 1, and the oldest sampled
  index minus the stride, not below 1, when there is none. The scan ends at the first
  sample at or before the window start, so the first sample at or before the window
  end is looked for among the samples up to that one; for a window whose start is not
  after its end that is the first such sample of the whole sequence. On the samples
  (1000, 15:00), (900, 14:30), (800, 13:50), (700, 13:00) with stride 100 and window
  13:00 to 14:00 the result is low 600 and high 900.
\<close>

theorem determine_range_locates:
  "2 \<le> length samples \<Longrightarrow>
     determine_range samples window_start window_end stride =
       Inr (spec_low samples window_start stride, spec_high samples window_start window_end stride)
     \<and> (window_start \<le> window_end \<longrightarrow>
          first_le window_end (scanned window_start samples) = first_le window_end samples)
     \<and> determine_range scenario_samples (time_hm 13 0) (time_hm 14 0) 100 = Inr (600, 900)"
proof -
  assume "2 \<le> length samples"
  then obtain s rest where samples: "samples = s # rest"
    by (cases samples) auto
  have "determine_range samples window_start window_end stride =
          Inr (spec_low samples window_start stride, spec_high samples window_start window_end stride)"
    unfolding determine_range_def spec_low_def spec_high_def Let_def samples
    by (simp add: scan_samples_fst scan_samples_snd split: option.splits)
  moreover have "determine_range scenario_samples (time_hm 13 0) (time_hm 14 0) 100 = Inr (600, 900)"
    by (simp add: determine_range_def scenario_samples_def time_hm_def)
  ultimately show ?thesis
    by (simp add: first_le_scanned)
qed

theorem determine_range_locates_witness:
  "2 \<le> length scenario_samples \<and> time_hm 13 0 \<le> time_hm 14 0
   \<and> spec_low scenario_samples (time_hm 13 0) 100 = 600
   \<and> spec_high scenario_samples (time_hm 13 0) (time_hm 14 0) 100 = 900
   \<and> first_le (time_hm 14 0) (scanned (time_hm 13 0) scenario_samples)
       = first_le (time_hm 14 0) scenario_samples"
proof -
  have len: "2 \<le> length scenario_samples"
    by (simp add: scenario_samples_def)
  have le: "time_hm 13 0 \<le> time_hm 14 0"
    by (simp add: time_hm_def)
  note located = determine_range_locates [OF len, of "time_hm 13 0" "time_hm 14 0" 100]
  from located have a: "determine_range scenario_samples (time_hm 13 0) (time_hm 14 0) 100 =
      Inr (spec_low scenario_samples (time_hm 13 0) 100,
           spec_high scenario_samples (time_hm 13 0) (time_hm 14 0) 100)"
    by blast
  from located have b: "determine_range scenario_samples (time_hm 13 0) (time_hm 14 0) 100 = Inr (600, 900)"
    by blast
  from located le have c: "first_le (time_hm 14 0) (scanned (time_hm 13 0) scenario_samples)
       = first_le (time_hm 14 0) scenario_samples"
    by blast
  from a b have "spec_low scenario_samples (time_hm 13 0) 100 = 600
    \<and> spec_high scenario_samples (time_hm 13 0) (time_hm 14 0) 100 = 900"
    by simp
  with len le c show ?thesis by blast
qed


subsection \<open>Shape of the collected samples\<close>

lemma sample_loop_collects:
  assumes "0 < si" and "sample_loop api lib board sl ts si n [] tr0 = Some (samples, tr)"
  shows "descending samples \<and> (\<forall>s\<in>set samples. 0 < fst s \<and> fst s \<le> n) \<and> length samples \<le> 1000"
  using sample_loop_returns [OF assms(1), of api lib board sl ts n "[]" tr0] assms(2)
  by auto

lemma first_le_simps:
  "first_le x [] = None"
  "first_le x (s # rest) = (if snd (snd s) \<le> x then Some s else first_le x rest)"
  by (simp_all add: first_le_def)

lemma first_le_member: "first_le x samples = Some s \<Longrightarrow> s \<in> set samples"
  by (induction samples) (auto simp: first_le_simps split: if_splits)

lemma descending_Cons:
  "descending (s # rest) = ((\<forall>r\<in>set rest. fst r < fst s) \<and> descending rest)"
  by (simp add: descending_def)

lemma descending_le_hd:
  "descending samples \<Longrightarrow> s \<in> set samples \<Longrightarrow> fst s \<le> fst (hd samples)"
  by (cases samples) (auto simp: descending_Cons)

lemma descending_last_le:
  "descending samples \<Longrightarrow> s \<in> set samples \<Longrightarrow> fst (last samples) \<le> fst s"
proof (induction samples)
  case Nil
  then show ?case by simp
next
  case (Cons a rest)
  show ?case
  proof (cases "rest = []")
    case True
    then show ?thesis using Cons.prems by simp
  next
    case False
    then have "last rest \<in> set rest" by simp
    then have "fst (last rest) < fst a" using Cons.prems(1) by (simp add: descending_Cons)
    moreover have "s \<in> set rest \<Longrightarrow> fst (last rest) \<le> fst s"
      using Cons.IH Cons.prems(1) by (simp add: descending_Cons)
    ultimately show ?thesis using Cons.prems(2) False by auto
  qed
qed

lemma descending_hd_last:
  "descending samples \<Longrightarrow> s \<in> set samples \<Longrightarrow>
     fst (last samples) \<le> fst s \<and> fst s \<le> fst (hd samples)"
  by (simp add: descending_le_hd descending_last_le)

lemma scanned_subset: "set (scanned ts samples) \<subseteq> set samples"
  by (induction samples) auto

lemma scanned_before_start:
  "descending samples \<Longrightarrow> e \<in> set (scanned ts samples) \<Longrightarrow> first_le ts samples = Some s \<Longrightarrow>
     fst s \<le> fst e"
proof (induction samples)
  case Nil
  then show ?case by simp
next
  case (Cons a rest)
  show ?case
  proof (cases "snd (snd a) \<le> ts")
    case True
    then show ?thesis using Cons.prems by (simp add: first_le_simps)
  next
    case False
    then have s: "first_le ts rest = Some s" using Cons.prems(3) by (simp add: first_le_simps)
    then have "s \<in> set rest" by (rule first_le_member)
    then have "fst s < fst a" using Cons.prems(1) by (simp add: descending_Cons)
    moreover have "e \<in> set (scanned ts rest) \<Longrightarrow> fst s \<le> fst e"
      using Cons.IH Cons.prems(1) s by (simp add: descending_Cons)
    ultimately show ?thesis using Cons.prems(2) False by auto
  qed
qed

lemma spec_bracket_ordered:
  assumes d: "descending samples" and pos: "\<forall>s\<in>set samples. 0 < fst s"
    and ne: "samples \<noteq> []" and si: "0 \<le> si"
  shows "spec_low samples ts si \<le> spec_high samples ts te si"
proof -
  have hdm: "hd samples \<in> set samples" and lam: "last samples \<in> set samples"
    using ne by simp_all
  have hd1: "1 \<le> fst (hd samples)" using pos hdm by force
  have low_le: "spec_low samples ts si \<le> fst (hd samples)"
  proof (cases "first_le ts samples")
    case None
    then show ?thesis
      using descending_hd_last[OF d lam] hd1 si by (simp add: spec_low_def)
  next
    case (Some s)
    then show ?thesis
      using descending_hd_last[OF d first_le_member[OF Some]] hd1 si by (simp add: spec_low_def)
  qed
  show ?thesis
  proof (cases "first_le te (scanned ts samples)")
    case None
    then show ?thesis using low_le by (simp add: spec_high_def)
  next
    case (Some e)
    then have em: "e \<in> set (scanned ts samples)" by (rule first_le_member)
    then have es: "e \<in> set samples" using scanned_subset by blast
    have e1: "1 \<le> fst e" using pos es by force
    have "spec_low samples ts si \<le> fst e + si"
    proof (cases "first_le ts samples")
      case None
      then show ?thesis
        using descending_hd_last[OF d es] e1 si by (simp add: spec_low_def)
    next
      case s: (Some s)
      then show ?thesis
        using scanned_before_start[OF d em s] e1 si by (simp add: spec_low_def)
    qed
    then show ?thesis using Some by (simp add: spec_high_def)
  qed
qed

lemma spec_bracket_bounds:
  assumes pos: "\<forall>s\<in>set samples. 0 < fst s \<and> fst s \<le> n"
    and ne: "samples \<noteq> []" and si: "0 \<le> si"
  shows "1 \<le> spec_low samples ts si \<and> spec_low samples ts si \<le> n
       \<and> 1 \<le> spec_high samples ts te si \<and> spec_high samples ts te si \<le> n + si"
proof -
  have hdm: "hd samples \<in> set samples" and lam: "last samples \<in> set samples"
    using ne by simp_all
  have n1: "1 \<le> n" using pos hdm by force
  have low: "1 \<le> spec_low samples ts si \<and> spec_low samples ts si \<le> n"
  proof (cases "first_le ts samples")
    case None
    then show ?thesis using pos lam n1 si by (force simp: spec_low_def)
  next
    case (Some s)
    then show ?thesis using pos first_le_member[OF Some] n1 si by (force simp: spec_low_def)
  qed
  have high: "1 \<le> spec_high samples ts te si \<and> spec_high samples ts te si \<le> n + si"
  proof (cases "first_le te (scanned ts samples)")
    case None
    then show ?thesis using pos hdm si by (force simp: spec_high_def)
  next
    case (Some e)
    then have "e \<in> set samples" using first_le_member scanned_subset by blast
    then show ?thesis using pos Some si by (force simp: spec_high_def)
  qed
  show ?thesis using low high by blast
qed

lemma determine_range_eq:
  "samples \<noteq> [] \<Longrightarrow> determine_range samples ts te si =
       Inr (spec_low samples ts si, spec_high samples ts te si)"
  unfolding determine_range_def spec_low_def spec_high_def Let_def
  by (cases samples) (simp_all add: scan_samples_fst scan_samples_snd split: option.splits)

subsection \<open>Evaluation on the concrete boards\<close>

lemma parse_13_14: "parse_window demo_lib (str ''13:00'') (str ''14:00'') = Some (46800, 50400)"
  by (simp add: parse_window_def hh_mm_def py_time_def demo_lib_def digits_int_def str_def time_hm_def)

lemma demo_strptime_post_eval:
  "demo_strptime_post (str ''Sat Oct  4 13:30:00 2025'') = Some (at_day 739528 13 30 0)"
  "demo_strptime_post (str ''Sat Oct  4 12:00:00 2025'') = Some (at_day 739528 12 0 0)"
  "demo_strptime_post (str ''Fri Oct  3 10:00:00 2025'') = Some (at_day 739527 10 0 0)"
  "demo_strptime_post (str ''Wed Oct  1 09:00:00 2025'') = Some (at_day 739525 9 0 0)"
  "demo_strptime_post (str ''Tue Sep 30 23:00:00 2025'') = Some (at_day 739524 23 0 0)"
  by (simp_all add: demo_strptime_post_def str_def)

lemma demo_sample_body:
  "sample_body demo_api demo_lib board sl 46800 150 [] =
     ([(150, at_day 739528 13 30 0, time_hm 13 30)], [GetPost 150, Print (SampleAt 150 (time_hm 13 30))], False)"
  "sample_body demo_api demo_lib board sl 46800 50 [(150, at_day 739528 13 30 0, time_hm 13 30)] =
     (demo_samples, [GetPost 50, Print (SampleAt 50 (time_hm 12 0))], False)"
  "sample_body small_api demo_lib board sl 46800 50 [] =
     ([(50, at_day 739528 12 0 0, time_hm 12 0)], [GetPost 50, Print (SampleAt 50 (time_hm 12 0))], False)"
  by (simp_all add: sample_body_def demo_api_def small_api_def demo_lib_def post_dated_def get_date_def
        demo_strptime_post_eval gone_too_far_def time_of_def at_day_def time_hm_def demo_samples_def)

lemma demo_sample_loop:
  "sample_loop demo_api demo_lib board sl 46800 100 150 [] tr0 =
     Some (demo_samples, tr0 @ [GetPost 150, Print (SampleAt 150 (time_hm 13 30)),
                                 GetPost 50, Print (SampleAt 50 (time_hm 12 0))])"
  by (simp add: sample_loop_step sample_loop_stop demo_sample_body demo_samples_def)

lemma small_sample_loop:
  "sample_loop small_api demo_lib board sl 46800 100 50 [] tr0 =
     Some ([(50, at_day 739528 12 0 0, time_hm 12 0)], tr0 @ [GetPost 50, Print (SampleAt 50 (time_hm 12 0))])"
  by (simp add: sample_loop_step sample_loop_stop demo_sample_body)

lemma demo_newest:
  "get_newest_index demo_api board sl = Some 150"
  "get_newest_index small_api board sl = Some 50"
  by (simp_all add: demo_api_def small_api_def)

lemma demo_find:
  "find_article_range_by_time demo_api demo_lib (str ''Test'') (str ''13:00'') (str ''14:00'') None 100 =
     Some ([GetNewestIndex, Print (NewestArticleIndex 150),
            Print (SearchingForTimeRange (str ''13:00'') (str ''14:00'')),
            GetPost 150, Print (SampleAt 150 (time_hm 13 30)),
            GetPost 50, Print (SampleAt 50 (time_hm 12 0)),
            Print (DeterminedArticleRange 1 250)], Inr (Some (1, 250)))"
  by (simp add: find_article_range_by_time_def parse_13_14 demo_newest demo_sample_loop
        demo_samples_def determine_range_def time_hm_def)

subsection \<open>Order and bounds of the bracket\<close>

text \<open>
  Claim C5. For every sequence of at least two samples that the sampling loop collects
  on any board with a positive interval, and every window whose start is not after its
  end, the locator returns a bracket with \<open>low \<le> high\<close>.
\<close>

theorem bracket_low_le_high:
  "0 < sample_interval \<Longrightarrow>
   sample_loop api lib board sl target_start sample_interval newest_index [] tr0 = Some (samples, tr) \<Longrightarrow>
   2 \<le> length samples \<Longrightarrow> window_start \<le> window_end \<Longrightarrow>
     \<exists>low high. determine_range samples window_start window_end sample_interval = Inr (low, high)
        \<and> low \<le> high"
proof -
  assume si: "0 < sample_interval"
    and loop: "sample_loop api lib board sl target_start sample_interval newest_index [] tr0 = Some (samples, tr)"
    and len: "2 \<le> length samples"
  from len have ne: "samples \<noteq> []" by auto
  from sample_loop_collects[OF si loop]
  have d: "descending samples" and pos: "\<forall>s\<in>set samples. 0 < fst s" by auto
  from spec_bracket_ordered[OF d pos ne, of sample_interval window_start window_end] si
  show ?thesis by (simp add: determine_range_eq[OF ne])
qed

theorem bracket_low_le_high_witness:
  "(0::int) < 100
   \<and> sample_loop demo_api demo_lib (str ''Test'') None 46800 100 150 [] [] =
        Some (demo_samples, [GetPost 150, Print (SampleAt 150 (time_hm 13 30)),
                             GetPost 50, Print (SampleAt 50 (time_hm 12 0))])
   \<and> 2 \<le> length demo_samples \<and> time_hm 13 0 \<le> time_hm 14 0
   \<and> (\<exists>low high. determine_range demo_samples (time_hm 13 0) (time_hm 14 0) 100 = Inr (low, high)
         \<and> low \<le> high)"
proof -
  have loop: "sample_loop demo_api demo_lib (str ''Test'') None 46800 100 150 [] [] =
        Some (demo_samples, [GetPost 150, Print (SampleAt 150 (time_hm 13 30)),
                             GetPost 50, Print (SampleAt 50 (time_hm 12 0))])"
    using demo_sample_loop [of "str ''Test''" None "[]"] by simp
  have len: "2 \<le> length demo_samples" by (simp add: demo_samples_def)
  have le: "time_hm 13 0 \<le> time_hm 14 0" by (simp add: time_hm_def)
  have si: "(0::int) < 100" by simp
  from bracket_low_le_high [OF si loop len le] loop len le show ?thesis by simp
qed

text \<open>
  Claim C2, as stated, fails: on a board whose newest index is 150, with samples at
  13:30 (index 150) and 12:00 (index 50) and the window 13:00 to 14:00, the locator
  returns \<open>high = 250\<close>, which is above the newest index.
\<close>

theorem bracket_high_above_newest:
  "find_article_range_by_time demo_api demo_lib (str ''Test'') (str ''13:00'') (str ''14:00'') None 100 =
     Some ([GetNewestIndex, Print (NewestArticleIndex 150),
            Print (SearchingForTimeRange (str ''13:00'') (str ''14:00'')),
            GetPost 150, Print (SampleAt 150 (time_hm 13 30)),
            GetPost 50, Print (SampleAt 50 (time_hm 12 0)),
            Print (DeterminedArticleRange 1 250)], Inr (Some (1, 250)))
   \<and> get_newest_index demo_api (str ''Test'') None = Some 150
   \<and> \<not> (250::int) \<le> 150"
  using demo_find by (simp add: demo_newest)

lemma find_article_range_by_time_Some:
  assumes "find_article_range_by_time api lib board start_time end_time sl si = Some (tr, Inr (Some (low, high)))"
  obtains target_start target_end newest samples tr' where
    "parse_window lib start_time end_time = Some (target_start, target_end)"
    "get_newest_index api board sl = Some newest"
    "sample_loop api lib board sl target_start si newest []
       [GetNewestIndex, Print (NewestArticleIndex newest),
        Print (SearchingForTimeRange start_time end_time)] = Some (samples, tr')"
    "2 \<le> length samples"
    "determine_range samples target_start target_end si = Inr (low, high)"
  using assms
  by (auto simp: find_article_range_by_time_def split: option.splits if_splits sum.splits prod.splits)

text \<open>
  Claim C2, amended. For every bracket the locator returns (from at least two samples,
  with a positive interval), \<open>low\<close> lies within 1 and the newest index, and \<open>high\<close>
  lies within 1 and the newest index plus the interval: the upper bound is padded by
  one interval and is not clamped to the newest index.
\<close>

theorem bracket_within_padded_index_space:
  "0 < sample_interval \<Longrightarrow> get_newest_index api board sl = Some newest_index \<Longrightarrow>
   find_article_range_by_time api lib board start_time end_time sl sample_interval =
     Some (tr, Inr (Some (low, high))) \<Longrightarrow>
     1 \<le> low \<and> low \<le> newest_index \<and> 1 \<le> high \<and> high \<le> newest_index + sample_interval"
proof -
  assume si: "0 < sample_interval" and newest: "get_newest_index api board sl = Some newest_index"
    and found: "find_article_range_by_time api lib board start_time end_time sl sample_interval =
     Some (tr, Inr (Some (low, high)))"
  from found obtain target_start target_end newest samples tr' where
    n: "get_newest_index api board sl = Some newest"
    and loop: "sample_loop api lib board sl target_start sample_interval newest []
       [GetNewestIndex, Print (NewestArticleIndex newest),
        Print (SearchingForTimeRange start_time end_time)] = Some (samples, tr')"
    and len: "2 \<le> length samples"
    and range: "determine_range samples target_start target_end sample_interval = Inr (low, high)"
    by (rule find_article_range_by_time_Some)
  from n newest have eq: "newest = newest_index" by simp
  from len have ne: "samples \<noteq> []" by auto
  from sample_loop_collects [OF si loop]
  have pos: "\<forall>s\<in>set samples. 0 < fst s \<and> fst s \<le> newest_index" unfolding eq by blast
  from range have "low = spec_low samples target_start sample_interval"
    and "high = spec_high samples target_start target_end sample_interval"
    by (simp_all add: determine_range_eq [OF ne])
  with spec_bracket_bounds [OF pos ne, of sample_interval target_start target_end] si
  show ?thesis by simp
qed

theorem bracket_within_padded_index_space_witness:
  "(0::int) < 100 \<and> get_newest_index demo_api (str ''Test'') None = Some 150
   \<and> find_article_range_by_time demo_api demo_lib (str ''Test'') (str ''13:00'') (str ''14:00'') None 100 =
     Some ([GetNewestIndex, Print (NewestArticleIndex 150),
            Print (SearchingForTimeRange (str ''13:00'') (str ''14:00'')),
            GetPost 150, Print (SampleAt 150 (time_hm 13 30)),
            GetPost 50, Print (SampleAt 50 (time_hm 12 0)),
            Print (DeterminedArticleRange 1 250)], Inr (Some (1, 250)))
   \<and> (1::int) \<le> 1 \<and> (1::int) \<le> 150 \<and> (1::int) \<le> 250 \<and> (250::int) \<le> 150 + 100"
proof -
  have si: "(0::int) < 100" by simp
  have n: "get_newest_index demo_api (str ''Test'') None = Some 150" by (rule demo_newest)
  from bracket_within_padded_index_space [OF si n demo_find] n demo_find
  show ?thesis by simp
qed

subsection \<open>Too few samples\<close>

text \<open>
  Claim C6. When the sampling loop returns fewer than two samples, the locator returns
  \<open>(None, None)\<close> after printing that there are not enough samples, and the enclosing
  \<open>_get_articles_by_time_range\<close> prints that the range could not be determined and
  returns the empty list: it returns, it does not raise.
\<close>

theorem too_few_samples_unresolved:
  "parse_window lib start_time end_time = Some (target_start, target_end) \<Longrightarrow>
   get_newest_index api board sl = Some newest_index \<Longrightarrow>
   sample_loop api lib board sl target_start sample_interval newest_index []
     [GetNewestIndex, Print (NewestArticleIndex newest_index),
      Print (SearchingForTimeRange start_time end_time)] = Some (samples, tr) \<Longrightarrow>
   length samples < 2 \<Longrightarrow>
     find_article_range_by_time api lib board start_time end_time sl sample_interval =
       Some (tr @ [Print NotEnoughSamples], Inr None)
     \<and> (sample_interval = 100 \<longrightarrow>
          get_articles_by_time_range api lib board start_time end_time sl =
            Some (tr @ [Print NotEnoughSamples, Print CouldNotDetermineRange], Inr []))"
  by (auto simp: find_article_range_by_time_def get_articles_by_time_range_def)

theorem too_few_samples_unresolved_witness:
  "parse_window demo_lib (str ''13:00'') (str ''14:00'') = Some (46800, 50400)
   \<and> get_newest_index small_api (str ''Test'') None = Some 50
   \<and> length [(50, at_day 739528 12 0 0, time_hm 12 0)] < 2
   \<and> find_article_range_by_time small_api demo_lib (str ''Test'') (str ''13:00'') (str ''14:00'') None 100 =
       Some ([GetNewestIndex, Print (NewestArticleIndex 50),
              Print (SearchingForTimeRange (str ''13:00'') (str ''14:00'')),
              GetPost 50, Print (SampleAt 50 (time_hm 12 0)), Print NotEnoughSamples], Inr None)
   \<and> get_articles_by_time_range small_api demo_lib (str ''Test'') (str ''13:00'') (str ''14:00'') None =
       Some ([GetNewestIndex, Print (NewestArticleIndex 50),
              Print (SearchingForTimeRange (str ''13:00'') (str ''14:00'')),
              GetPost 50, Print (SampleAt 50 (time_hm 12 0)), Print NotEnoughSamples,
              Print CouldNotDetermineRange], Inr [])"
proof -
  have n: "get_newest_index small_api (str ''Test'') None = Some 50" by (rule demo_newest)
  have len: "length [(50::int, at_day 739528 12 0 0, time_hm 12 0)] < 2" by simp
  from too_few_samples_unresolved [OF parse_13_14 n small_sample_loop len] parse_13_14 n
  show ?thesis by simp
qed

subsection \<open>Termination and cost of the sampling loop\<close>







subsection \<open>The early stop\<close>

lemma gone_too_far_snoc:
  "gone_too_far (samples @ [(cur, dt, t)]) ts =
     (samples \<noteq> [] \<and> ts - t > 2 * max 600 \<bar>fst (snd (last samples)) - dt\<bar>)"
proof (cases "samples = []")
  case True
  then show ?thesis by (simp add: gone_too_far_def)
next
  case False
  then have len: "2 \<le> length (samples @ [(cur, dt, t)])"
    by (cases samples) simp_all
  have nth: "(samples @ [(cur, dt, t)]) ! (length (samples @ [(cur, dt, t)]) - 2) = last samples"
    using False by (simp add: nth_append last_conv_nth)
  show ?thesis
    unfolding gone_too_far_def Let_def nth using False len
    by (auto simp: max_def abs_if split: if_splits)
qed

lemma demo_sample_body_stop:
  "sample_body demo_api demo_lib board sl (time_hm 16 0) 50 [(150, at_day 739528 13 30 0, time_hm 13 30)] =
     (demo_samples, [GetPost 50, Print (SampleAt 50 (time_hm 12 0)), Print GoneTooFar], True)"
  by (simp add: sample_body_def demo_api_def demo_lib_def post_dated_def get_date_def
        demo_strptime_post_eval gone_too_far_def time_of_def at_day_def time_hm_def demo_samples_def)

text \<open>
  Claim C3, as stated, fails: the test looks at the newest sample only. With the window
  start at 13:00 and the two most recent samples at 12:45 and 12:35, the tolerance is
  twenty minutes; the newest sample is 25 minutes early and the loop stops, although
  the sample before is only 15 minutes early.
\<close>

theorem early_stop_ignores_previous_sample:
  "gone_too_far [(1000, at_day 739528 12 45 0, time_hm 12 45), (900, at_day 739528 12 35 0, time_hm 12 35)]
     (time_hm 13 0)
   \<and> \<not> spec_early_stop [(1000, at_day 739528 12 45 0, time_hm 12 45), (900, at_day 739528 12 35 0, time_hm 12 35)]
     (time_hm 13 0)"
  by (simp add: gone_too_far_def spec_early_stop_def at_day_def time_hm_def)

text \<open>
  Claim C3, amended. The early stop fires exactly when the post at the current index
  was fetched and its date parsed, an earlier sample exists, and the time of day of
  the new sample is earlier than the window start by more than the tolerance, twice
  the larger of ten minutes and the distance between the new sample and the one
  before. When it fires the loop returns at once, having fetched the current index
  only.
\<close>

theorem early_stop_fires:
  "0 < current_index \<Longrightarrow>
     (snd (snd (sample_body api lib board sl target_start current_index samples)) \<longleftrightarrow>
        (\<exists>a dt. get_post api board current_index sl = Post a
                \<and> strptime_post lib (get_date a) = Some dt
                \<and> samples \<noteq> []
                \<and> target_start - time_of dt > 2 * max 600 \<bar>fst (snd (last samples)) - dt\<bar>))
     \<and> (snd (snd (sample_body api lib board sl target_start current_index samples)) \<longrightarrow>
          sample_loop api lib board sl target_start sample_interval current_index samples tr =
            Some (fst (sample_body api lib board sl target_start current_index samples),
                  tr @ fst (snd (sample_body api lib board sl target_start current_index samples)))
          \<and> fetches (fst (snd (sample_body api lib board sl target_start current_index samples)))
              = [current_index])"
proof -
  assume pos: "0 < current_index"
  have "snd (snd (sample_body api lib board sl target_start current_index samples)) \<longleftrightarrow>
        (\<exists>a dt. get_post api board current_index sl = Post a
                \<and> strptime_post lib (get_date a) = Some dt
                \<and> samples \<noteq> []
                \<and> target_start - time_of dt > 2 * max 600 \<bar>fst (snd (last samples)) - dt\<bar>)"
    by (auto simp: sample_body_def Let_def gone_too_far_snoc split: post_result.splits option.splits)
  then show ?thesis
    using pos by (simp add: sample_loop_step sample_body_fetches)
qed

theorem early_stop_fires_witness:
  "(0::int) < 50
   \<and> snd (snd (sample_body demo_api demo_lib (str ''Test'') None (time_hm 16 0) 50
                  [(150, at_day 739528 13 30 0, time_hm 13 30)]))
   \<and> sample_loop demo_api demo_lib (str ''Test'') None (time_hm 16 0) 100 50
        [(150, at_day 739528 13 30 0, time_hm 13 30)] [GetPost 150] =
      Some (demo_samples, [GetPost 150, GetPost 50, Print (SampleAt 50 (time_hm 12 0)), Print GoneTooFar])"
proof -
  have pos: "(0::int) < 50" by simp
  have fired: "snd (snd (sample_body demo_api demo_lib (str ''Test'') None (time_hm 16 0) 50
                  [(150, at_day 739528 13 30 0, time_hm 13 30)]))"
    by (simp add: demo_sample_body_stop)
  from early_stop_fires [OF pos, of demo_api demo_lib "str ''Test''" None "time_hm 16 0"
      "[(150, at_day 739528 13 30 0, time_hm 13 30)]" 100 "[GetPost 150]"] fired
  have "sample_loop demo_api demo_lib (str ''Test'') None (time_hm 16 0) 100 50
        [(150, at_day 739528 13 30 0, time_hm 13 30)] [GetPost 150] =
      Some (fst (sample_body demo_api demo_lib (str ''Test'') None (time_hm 16 0) 50
                  [(150, at_day 739528 13 30 0, time_hm 13 30)]),
            [GetPost 150] @ fst (snd (sample_body demo_api demo_lib (str ''Test'') None (time_hm 16 0) 50
                  [(150, at_day 739528 13 30 0, time_hm 13 30)])))"
    by blast
  then show ?thesis using pos fired by (simp add: demo_sample_body_stop)
qed

subsection \<open>Searching the comments\<close>

lemma starts_with_iff: "starts_with sub s \<longleftrightarrow> (\<exists>after. s = sub @ after)"
  by (induction sub s rule: starts_with.induct) auto

lemma py_in_iff: "py_in sub s \<longleftrightarrow> (\<exists>before after. s = before @ sub @ after)"
proof (induction s)
  case Nil
  then show ?case by auto
next
  case (Cons c cs)
  have "(\<exists>before after. c # cs = before @ sub @ after) \<longleftrightarrow>
        (\<exists>after. c # cs = sub @ after) \<or> (\<exists>before after. cs = before @ sub @ after)"
  proof
    assume "\<exists>before after. c # cs = before @ sub @ after"
    then obtain before after where d: "c # cs = before @ sub @ after" by blast
    show "(\<exists>after. c # cs = sub @ after) \<or> (\<exists>before after. cs = before @ sub @ after)"
    proof (cases before)
      case Nil
      then show ?thesis using d by auto
    next
      case (Cons b bs)
      then have "cs = bs @ sub @ after" using d by simp
      then show ?thesis by blast
    qed
  next
    assume "(\<exists>after. c # cs = sub @ after) \<or> (\<exists>before after. cs = before @ sub @ after)"
    then show "\<exists>before after. c # cs = before @ sub @ after"
    proof
      assume "\<exists>after. c # cs = sub @ after"
      then obtain after where "c # cs = [] @ sub @ after" by auto
      then show ?thesis by blast
    next
      assume "\<exists>before after. cs = before @ sub @ after"
      then obtain before after where "c # cs = (c # before) @ sub @ after" by auto
      then show ?thesis by blast
    qed
  qed
  then show ?case using Cons.IH by (simp add: starts_with_iff)
qed

lemma match_comments_eq:
  "match_comments lib keyword a cs matched =
     (if \<exists>c\<in>set cs. py_in (lower lib keyword) (lower lib (get_content c))
      then matched @ [a] else matched)"
  by (induction cs) auto

lemma match_articles_eq:
  "match_articles lib keyword all_articles matched =
     matched @ filter (spec_comment_contains lib keyword) all_articles"
  by (induction all_articles arbitrary: matched)
     (auto simp: match_comments_eq spec_comment_contains_def py_in_iff)

text \<open>
  Claim C7. For every list of posts the comment search returns exactly the posts of
  which some comment's content contains the keyword, both in lower case, in the order
  of the input and each at most once, since the loop over the comments of a post ends
  at the first match; the result is a subsequence of the input.
  \<open>search_by_comment_content\<close> applies this to the posts \<open>get_articles\<close> returns. With the
  keyword \<open>U+63A8\<close>, a post commented \<open>U+597D U+6587 U+63A8\<close> is kept and a post
  commented \<open>U+7121 U+95DC\<close> is not, \<open>str.lower\<close> leaving these strings as they are.
\<close>

theorem comment_search_filters:
  "match_articles lib keyword all_articles [] = filter (spec_comment_contains lib keyword) all_articles
   \<and> subseq (match_articles lib keyword all_articles []) all_articles
   \<and> search_by_comment_content api lib board keyword count start_time end_time =
       (case get_articles api lib board count start_time end_time of
          None \<Rightarrow> None
        | Some (tr, Inl err) \<Rightarrow> Some (tr, Inl err)
        | Some (tr, Inr all_articles) \<Rightarrow>
            Some (tr, Inr (filter (spec_comment_contains lib keyword) all_articles)))
   \<and> (lower lib [25512] = [25512] \<and> lower lib [22909, 25991, 25512] = [22909, 25991, 25512]
        \<and> lower lib [28961, 38364] = [28961, 38364] \<longrightarrow>
        match_articles lib [25512] [post_with_push, post_without_push] [] = [post_with_push])"
proof -
  have scenario: "match_articles lib [25512] [post_with_push, post_without_push] [] = [post_with_push]"
    if "lower lib [25512] = [25512]" "lower lib [22909, 25991, 25512] = [22909, 25991, 25512]"
       "lower lib [28961, 38364] = [28961, 38364]"
    using that
    by (simp add: post_with_push_def post_without_push_def commented_def get_comments_def get_content_def)
  show ?thesis
    using scenario
    by (simp add: match_articles_eq search_by_comment_content_def
             split: option.splits sum.splits prod.splits)
qed

theorem comment_search_filters_witness:
  "lower demo_lib [25512] = [25512] \<and> lower demo_lib [22909, 25991, 25512] = [22909, 25991, 25512]
   \<and> lower demo_lib [28961, 38364] = [28961, 38364]
   \<and> match_articles demo_lib [25512] [post_with_push, post_without_push] [] = [post_with_push]
   \<and> filter (spec_comment_contains demo_lib [25512]) [post_with_push, post_without_push] = [post_with_push]"
proof -
  have l: "lower demo_lib [25512] = [25512]" "lower demo_lib [22909, 25991, 25512] = [22909, 25991, 25512]"
    "lower demo_lib [28961, 38364] = [28961, 38364]"
    by (simp_all add: demo_lib_def ascii_lower_def)
  note c = comment_search_filters [of demo_lib "[25512]" "[post_with_push, post_without_push]"
      demo_api "str ''Test''" 2 None None]
  from c l have a: "match_articles demo_lib [25512] [post_with_push, post_without_push] [] = [post_with_push]"
    by blast
  from c have "match_articles demo_lib [25512] [post_with_push, post_without_push] [] =
      filter (spec_comment_contains demo_lib [25512]) [post_with_push, post_without_push]"
    by blast
  with a l show ?thesis by simp
qed

subsection \<open>The filter by time of day\<close>

lemma filter_by_time_eq:
  "filter_by_time lib s e fetched =
     filter (\<lambda>a. get_date a \<noteq> [] \<and> spec_time_of_day_within lib s e a) fetched"
  by (induction fetched) (auto simp: spec_time_of_day_within_def split: option.splits)

lemma filter_by_time_parsed:
  "strptime_post lib [] = None \<Longrightarrow>
     filter_by_time lib s e fetched = filter (spec_time_of_day_within lib s e) fetched"
  unfolding filter_by_time_eq
  by (rule filter_cong) (auto simp: spec_time_of_day_within_def)

lemma demo_strptime_post_none:
  "demo_strptime_post [] = None" "demo_strptime_post (str ''yesterday'') = None"
  by (simp_all add: demo_strptime_post_def str_def)

text \<open>
  Claim C8. The filter by time of day keeps a fetched post exactly when its date string
  is not empty, parses, and has its time of day within the window, bounds included;
  \<open>strptime\<close> failing on the empty string, that is exactly when the date parses and its
  time of day is within the window. A post without a date or with a date that does
  not parse is left out; once the range is found the query returns the filtered posts,
  it does not raise, and it prints nothing about the posts it leaves out.
\<close>

theorem time_filter_keeps_parsed_in_window:
  "filter_by_time lib window_start window_end fetched =
     filter (\<lambda>a. get_date a \<noteq> [] \<and> spec_time_of_day_within lib window_start window_end a) fetched
   \<and> (strptime_post lib [] = None \<longrightarrow>
        filter_by_time lib window_start window_end fetched =
          filter (spec_time_of_day_within lib window_start window_end) fetched)
   \<and> (find_article_range_by_time api lib board start_time end_time sl 100 =
         Some (tr, Inr (Some (start_index, end_index))) \<longrightarrow>
       (\<exists>target_start target_end.
          parse_window lib start_time end_time = Some (target_start, target_end)
          \<and> get_articles_by_time_range api lib board start_time end_time sl =
              Some (tr @ [Print (FetchingArticles start_index end_index)]
                       @ fst (fetch_posts api board sl [start_index..end_index])
                       @ [Print (FoundArticles (length (filter_by_time lib target_start target_end
                            (snd (fetch_posts api board sl [start_index..end_index])))))],
                    Inr (filter_by_time lib target_start target_end
                            (snd (fetch_posts api board sl [start_index..end_index]))))))"
proof -
  have third: "\<exists>target_start target_end.
          parse_window lib start_time end_time = Some (target_start, target_end)
          \<and> get_articles_by_time_range api lib board start_time end_time sl =
              Some (tr @ [Print (FetchingArticles start_index end_index)]
                       @ fst (fetch_posts api board sl [start_index..end_index])
                       @ [Print (FoundArticles (length (filter_by_time lib target_start target_end
                            (snd (fetch_posts api board sl [start_index..end_index])))))],
                    Inr (filter_by_time lib target_start target_end
                            (snd (fetch_posts api board sl [start_index..end_index]))))"
    if found: "find_article_range_by_time api lib board start_time end_time sl 100 =
         Some (tr, Inr (Some (start_index, end_index)))"
  proof -
    from found obtain target_start target_end where
      p: "parse_window lib start_time end_time = Some (target_start, target_end)"
      by (rule find_article_range_by_time_Some)
    show ?thesis
      using found p by (simp add: get_articles_by_time_range_def Let_def)
  qed
  show ?thesis
    using third by (simp add: filter_by_time_parsed) (simp add: filter_by_time_eq)
qed

theorem time_filter_keeps_parsed_in_window_witness:
  "strptime_post demo_lib [] = None
   \<and> find_article_range_by_time demo_api demo_lib (str ''Test'') (str ''13:00'') (str ''14:00'') None 100 =
     Some ([GetNewestIndex, Print (NewestArticleIndex 150),
            Print (SearchingForTimeRange (str ''13:00'') (str ''14:00'')),
            GetPost 150, Print (SampleAt 150 (time_hm 13 30)),
            GetPost 50, Print (SampleAt 50 (time_hm 12 0)),
            Print (DeterminedArticleRange 1 250)], Inr (Some (1, 250)))
   \<and> (\<exists>tr. get_articles_by_time_range demo_api demo_lib (str ''Test'') (str ''13:00'') (str ''14:00'') None =
        Some (tr, Inr (filter_by_time demo_lib 46800 50400
                         (snd (fetch_posts demo_api (str ''Test'') None [1..250])))))
   \<and> filter_by_time demo_lib 46800 50400
        [post_dated ''M.150'' ''Sat Oct  4 13:30:00 2025'', undated, misdated,
         post_dated ''M.50'' ''Sat Oct  4 12:00:00 2025'']
      = [post_dated ''M.150'' ''Sat Oct  4 13:30:00 2025'']"
proof -
  have n: "strptime_post demo_lib [] = None"
    by (simp add: demo_lib_def demo_strptime_post_none)
  note t = time_filter_keeps_parsed_in_window [of demo_lib 46800 50400
      "[post_dated ''M.150'' ''Sat Oct  4 13:30:00 2025'', undated, misdated,
        post_dated ''M.50'' ''Sat Oct  4 12:00:00 2025'']"
      demo_api "str ''Test''" "str ''13:00''" "str ''14:00''" None _ 1 250]
  from t n have "filter_by_time demo_lib 46800 50400
        [post_dated ''M.150'' ''Sat Oct  4 13:30:00 2025'', undated, misdated,
         post_dated ''M.50'' ''Sat Oct  4 12:00:00 2025'']
      = filter (spec_time_of_day_within demo_lib 46800 50400)
        [post_dated ''M.150'' ''Sat Oct  4 13:30:00 2025'', undated, misdated,
         post_dated ''M.50'' ''Sat Oct  4 12:00:00 2025'']"
    by blast
  then have f: "filter_by_time demo_lib 46800 50400
        [post_dated ''M.150'' ''Sat Oct  4 13:30:00 2025'', undated, misdated,
         post_dated ''M.50'' ''Sat Oct  4 12:00:00 2025'']
      = [post_dated ''M.150'' ''Sat Oct  4 13:30:00 2025'']"
    by (simp add: spec_time_of_day_within_def demo_lib_def post_dated_def undated_def misdated_def
          get_date_def demo_strptime_post_eval demo_strptime_post_none time_of_def at_day_def)
  from t demo_find have "\<exists>ts te. parse_window demo_lib (str ''13:00'') (str ''14:00'') = Some (ts, te)
     \<and> (\<exists>tr. get_articles_by_time_range demo_api demo_lib (str ''Test'') (str ''13:00'') (str ''14:00'') None =
        Some (tr, Inr (filter_by_time demo_lib ts te
                         (snd (fetch_posts demo_api (str ''Test'') None [1..250])))))"
    by blast
  then have g: "\<exists>tr. get_articles_by_time_range demo_api demo_lib (str ''Test'') (str ''13:00'') (str ''14:00'') None =
        Some (tr, Inr (filter_by_time demo_lib 46800 50400
                         (snd (fetch_posts demo_api (str ''Test'') None [1..250]))))"
    by (simp add: parse_13_14)
  from n demo_find g f show ?thesis by blast
qed

subsection \<open>Choosing between the time-based and the count-based path\<close>

lemma fetches_fetch_posts: "fetches (fst (fetch_posts api board sl indices)) = indices"
  by (induction indices) (auto split: post_result.splits)

lemma upto_149_150: "[149..150] = [149, 150::int]"
  by (simp add: upto.simps)

text \<open>
  Claim C10. When exactly one of \<open>start_time\<close> and \<open>end_time\<close> is given, the other absent
  or empty, each of the five queries returns what it returns without any time window,
  and that is the count-based path: the query asks for the newest index, with its own
  search list, and fetches the indices from \<open>max(1, newest - count + 1)\<close> to the newest,
  those and no others. \<open>get_articles\<close> and the two comment searches raise when the
  newest index cannot be had, the searches by title and by author return the empty
  list; the comment searches filter what was fetched.
\<close>

theorem one_sided_window_is_ignored:
  "truthy start_time \<noteq> truthy end_time \<Longrightarrow>
     get_articles api lib board count start_time end_time = get_articles api lib board count None None
   \<and> search_by_title api lib board keyword count start_time end_time =
       search_by_title api lib board keyword count None None
   \<and> search_by_author api lib board author_id count start_time end_time =
       search_by_author api lib board author_id count None None
   \<and> search_by_comment_content api lib board keyword count start_time end_time =
       search_by_comment_content api lib board keyword count None None
   \<and> search_comments_by_author api lib board author_id start_time end_time count =
       search_comments_by_author api lib board author_id None None count
   \<and> get_articles api lib board count start_time end_time =
       (case get_newest_index api board None of
          None \<Rightarrow> Some ([GetNewestIndex], Inl PttError)
        | Some newest_index \<Rightarrow>
            Some (GetNewestIndex #
                    fst (fetch_posts api board None [max 1 (newest_index - count + 1)..newest_index]),
                  Inr (snd (fetch_posts api board None [max 1 (newest_index - count + 1)..newest_index]))))
   \<and> (\<forall>newest_index. get_newest_index api board None = Some newest_index \<longrightarrow>
         map_option (fetches \<circ> fst) (get_articles api lib board count start_time end_time) =
           Some [max 1 (newest_index - count + 1)..newest_index])
   \<and> search_by_title api lib board keyword count start_time end_time =
       (case get_newest_index api board (Some [(KEYWORD, keyword)]) of
          None \<Rightarrow> Some ([GetNewestIndex], Inr [])
        | Some newest_index \<Rightarrow>
            Some (GetNewestIndex #
                    fst (fetch_posts api board (Some [(KEYWORD, keyword)])
                           [max 1 (newest_index - count + 1)..newest_index]),
                  Inr (snd (fetch_posts api board (Some [(KEYWORD, keyword)])
                              [max 1 (newest_index - count + 1)..newest_index]))))
   \<and> (\<forall>newest_index. get_newest_index api board (Some [(KEYWORD, keyword)]) = Some newest_index \<longrightarrow>
         map_option (fetches \<circ> fst) (search_by_title api lib board keyword count start_time end_time) =
           Some [max 1 (newest_index - count + 1)..newest_index])
   \<and> search_by_author api lib board author_id count start_time end_time =
       (case get_newest_index api board (Some [(AUTHOR, author_id)]) of
          None \<Rightarrow> Some ([GetNewestIndex], Inr [])
        | Some newest_index \<Rightarrow>
            Some (GetNewestIndex #
                    fst (fetch_posts api board (Some [(AUTHOR, author_id)])
                           [max 1 (newest_index - count + 1)..newest_index]),
                  Inr (snd (fetch_posts api board (Some [(AUTHOR, author_id)])
                              [max 1 (newest_index - count + 1)..newest_index]))))
   \<and> (\<forall>newest_index. get_newest_index api board (Some [(AUTHOR, author_id)]) = Some newest_index \<longrightarrow>
         map_option (fetches \<circ> fst) (search_by_author api lib board author_id count start_time end_time) =
           Some [max 1 (newest_index - count + 1)..newest_index])
   \<and> search_by_comment_content api lib board keyword count start_time end_time =
       (case get_newest_index api board None of
          None \<Rightarrow> Some ([GetNewestIndex], Inl PttError)
        | Some newest_index \<Rightarrow>
            Some (GetNewestIndex #
                    fst (fetch_posts api board None [max 1 (newest_index - count + 1)..newest_index]),
                  Inr (match_articles lib keyword
                         (snd (fetch_posts api board None [max 1 (newest_index - count + 1)..newest_index]))
                         [])))
   \<and> (\<forall>newest_index. get_newest_index api board None = Some newest_index \<longrightarrow>
         map_option (fetches \<circ> fst)
           (search_by_comment_content api lib board keyword count start_time end_time) =
           Some [max 1 (newest_index - count + 1)..newest_index])
   \<and> search_comments_by_author api lib board author_id start_time end_time count =
       (case get_newest_index api board None of
          None \<Rightarrow> Some ([GetNewestIndex], Inl PttError)
        | Some newest_index \<Rightarrow>
            Some (GetNewestIndex #
                    fst (fetch_posts api board None [max 1 (newest_index - count + 1)..newest_index]),
                  Inr (match_author_articles lib author_id
                         (snd (fetch_posts api board None [max 1 (newest_index - count + 1)..newest_index]))
                         [])))
   \<and> (\<forall>newest_index. get_newest_index api board None = Some newest_index \<longrightarrow>
         map_option (fetches \<circ> fst)
           (search_comments_by_author api lib board author_id start_time end_time count) =
           Some [max 1 (newest_index - count + 1)..newest_index])"
proof -
  assume "truthy start_time \<noteq> truthy end_time"
  then have one: "(truthy start_time \<and> truthy end_time) = False" by blast
  have none: "truthy None = False" by (simp add: truthy_def)
  have ga: "get_articles api lib board count start_time end_time = get_articles api lib board count None None"
    by (simp add: get_articles_def one none)
  have st: "search_by_title api lib board keyword count start_time end_time =
       search_by_title api lib board keyword count None None"
    by (simp add: search_by_title_def one none)
  have sa: "search_by_author api lib board author_id count start_time end_time =
       search_by_author api lib board author_id count None None"
    by (simp add: search_by_author_def one none)
  have sc: "search_by_comment_content api lib board keyword count start_time end_time =
       search_by_comment_content api lib board keyword count None None"
    by (simp add: search_by_comment_content_def ga)
  have sca: "search_comments_by_author api lib board author_id start_time end_time count =
       search_comments_by_author api lib board author_id None None count"
    by (simp add: search_comments_by_author_def ga)
  have path: "get_articles api lib board count start_time end_time =
       (case get_newest_index api board None of
          None \<Rightarrow> Some ([GetNewestIndex], Inl PttError)
        | Some newest_index \<Rightarrow>
            Some (GetNewestIndex #
                    fst (fetch_posts api board None [max 1 (newest_index - count + 1)..newest_index]),
                  Inr (snd (fetch_posts api board None [max 1 (newest_index - count + 1)..newest_index]))))"
    by (simp add: get_articles_def Let_def one split: option.splits)
  have idx: "\<forall>newest_index. get_newest_index api board None = Some newest_index \<longrightarrow>
         map_option (fetches \<circ> fst) (get_articles api lib board count start_time end_time) =
           Some [max 1 (newest_index - count + 1)..newest_index]"
    unfolding path by (simp add: fetches_fetch_posts)
  have tpath: "search_by_title api lib board keyword count start_time end_time =
       (case get_newest_index api board (Some [(KEYWORD, keyword)]) of
          None \<Rightarrow> Some ([GetNewestIndex], Inr [])
        | Some newest_index \<Rightarrow>
            Some (GetNewestIndex #
                    fst (fetch_posts api board (Some [(KEYWORD, keyword)])
                           [max 1 (newest_index - count + 1)..newest_index]),
                  Inr (snd (fetch_posts api board (Some [(KEYWORD, keyword)])
                              [max 1 (newest_index - count + 1)..newest_index]))))"
    by (simp add: search_by_title_def Let_def one split: option.splits)
  have tidx: "\<forall>newest_index. get_newest_index api board (Some [(KEYWORD, keyword)]) = Some newest_index \<longrightarrow>
         map_option (fetches \<circ> fst) (search_by_title api lib board keyword count start_time end_time) =
           Some [max 1 (newest_index - count + 1)..newest_index]"
    unfolding tpath by (simp add: fetches_fetch_posts)
  have apath: "search_by_author api lib board author_id count start_time end_time =
       (case get_newest_index api board (Some [(AUTHOR, author_id)]) of
          None \<Rightarrow> Some ([GetNewestIndex], Inr [])
        | Some newest_index \<Rightarrow>
            Some (GetNewestIndex #
                    fst (fetch_posts api board (Some [(AUTHOR, author_id)])
                           [max 1 (newest_index - count + 1)..newest_index]),
                  Inr (snd (fetch_posts api board (Some [(AUTHOR, author_id)])
                              [max 1 (newest_index - count + 1)..newest_index]))))"
    by (simp add: search_by_author_def Let_def one split: option.splits)
  have aidx: "\<forall>newest_index. get_newest_index api board (Some [(AUTHOR, author_id)]) = Some newest_index \<longrightarrow>
         map_option (fetches \<circ> fst) (search_by_author api lib board author_id count start_time end_time) =
           Some [max 1 (newest_index - count + 1)..newest_index]"
    unfolding apath by (simp add: fetches_fetch_posts)
  have cpath: "search_by_comment_content api lib board keyword count start_time end_time =
       (case get_newest_index api board None of
          None \<Rightarrow> Some ([GetNewestIndex], Inl PttError)
        | Some newest_index \<Rightarrow>
            Some (GetNewestIndex #
                    fst (fetch_posts api board None [max 1 (newest_index - count + 1)..newest_index]),
                  Inr (match_articles lib keyword
                         (snd (fetch_posts api board None [max 1 (newest_index - count + 1)..newest_index]))
                         [])))"
    unfolding search_by_comment_content_def path by (simp split: option.splits)
  have cidx: "\<forall>newest_index. get_newest_index api board None = Some newest_index \<longrightarrow>
         map_option (fetches \<circ> fst)
           (search_by_comment_content api lib board keyword count start_time end_time) =
           Some [max 1 (newest_index - count + 1)..newest_index]"
    unfolding cpath by (simp add: fetches_fetch_posts)
  have capath: "search_comments_by_author api lib board author_id start_time end_time count =
       (case get_newest_index api board None of
          None \<Rightarrow> Some ([GetNewestIndex], Inl PttError)
        | Some newest_index \<Rightarrow>
            Some (GetNewestIndex #
                    fst (fetch_posts api board None [max 1 (newest_index - count + 1)..newest_index]),
                  Inr (match_author_articles lib author_id
                         (snd (fetch_posts api board None [max 1 (newest_index - count + 1)..newest_index]))
                         [])))"
    unfolding search_comments_by_author_def path by (simp split: option.splits)
  have caidx: "\<forall>newest_index. get_newest_index api board None = Some newest_index \<longrightarrow>
         map_option (fetches \<circ> fst)
           (search_comments_by_author api lib board author_id start_time end_time count) =
           Some [max 1 (newest_index - count + 1)..newest_index]"
    unfolding capath by (simp add: fetches_fetch_posts)
  show ?thesis
    apply (intro conjI)
    apply (rule ga)
    apply (rule st)
    apply (rule sa)
    apply (rule sc)
    apply (rule sca)
    apply (rule path)
    apply (rule idx)
    apply (rule tpath)
    apply (rule tidx)
    apply (rule apath)
    apply (rule aidx)
    apply (rule cpath)
    apply (rule cidx)
    apply (rule capath)
    apply (rule caidx)
    done
qed

theorem one_sided_window_is_ignored_witness:
  "truthy (Some (str ''13:00'')) \<noteq> truthy (Some [])
   \<and> get_articles demo_api demo_lib (str ''Test'') 2 (Some (str ''13:00'')) (Some []) =
       Some ([GetNewestIndex, GetPost 149, GetPost 150],
             Inr [post_dated ''M.150'' ''Sat Oct  4 13:30:00 2025''])
   \<and> get_articles demo_api demo_lib (str ''Test'') 2 None None =
       Some ([GetNewestIndex, GetPost 149, GetPost 150],
             Inr [post_dated ''M.150'' ''Sat Oct  4 13:30:00 2025''])
   \<and> search_by_title demo_api demo_lib (str ''Test'') (str ''news'') 2 (Some (str ''13:00'')) (Some []) =
       Some ([GetNewestIndex, GetPost 149, GetPost 150],
             Inr [post_dated ''M.150'' ''Sat Oct  4 13:30:00 2025''])
   \<and> search_by_author demo_api demo_lib (str ''Test'') (str ''someone'') 2 (Some (str ''13:00'')) (Some []) =
       Some ([GetNewestIndex, GetPost 149, GetPost 150],
             Inr [post_dated ''M.150'' ''Sat Oct  4 13:30:00 2025''])
   \<and> search_by_comment_content demo_api demo_lib (str ''Test'') (str ''news'') 2
         (Some (str ''13:00'')) (Some []) =
       Some ([GetNewestIndex, GetPost 149, GetPost 150], Inr [])
   \<and> search_comments_by_author demo_api demo_lib (str ''Test'') (str ''someone'')
         (Some (str ''13:00'')) (Some []) 2 =
       Some ([GetNewestIndex, GetPost 149, GetPost 150], Inr [])"
proof -
  have h: "truthy (Some (str ''13:00'')) \<noteq> truthy (Some [])"
    by (simp add: truthy_def str_def)
  note t = one_sided_window_is_ignored [OF h, of demo_api demo_lib "str ''Test''" 2
      "str ''news''" "str ''someone''"]
  have f: "fetch_posts demo_api (str ''Test'') sl [max 1 (150 - 2 + 1)..150] =
      ([GetPost 149, GetPost 150], [post_dated ''M.150'' ''Sat Oct  4 13:30:00 2025''])" for sl
    by (simp add: demo_api_def upto_149_150)
  from t have a: "get_articles demo_api demo_lib (str ''Test'') 2 (Some (str ''13:00'')) (Some []) =
       get_articles demo_api demo_lib (str ''Test'') 2 None None"
    by blast
  from t have "get_articles demo_api demo_lib (str ''Test'') 2 (Some (str ''13:00'')) (Some []) =
       (case get_newest_index demo_api (str ''Test'') None of
          None \<Rightarrow> Some ([GetNewestIndex], Inl PttError)
        | Some newest_index \<Rightarrow>
            Some (GetNewestIndex #
                    fst (fetch_posts demo_api (str ''Test'') None [max 1 (newest_index - 2 + 1)..newest_index]),
                  Inr (snd (fetch_posts demo_api (str ''Test'') None [max 1 (newest_index - 2 + 1)..newest_index]))))"
    by blast
  then have b: "get_articles demo_api demo_lib (str ''Test'') 2 (Some (str ''13:00'')) (Some []) =
       Some ([GetNewestIndex, GetPost 149, GetPost 150],
             Inr [post_dated ''M.150'' ''Sat Oct  4 13:30:00 2025''])"
    by (simp only: demo_newest option.case f fst_conv snd_conv)
  from t have "search_by_title demo_api demo_lib (str ''Test'') (str ''news'') 2 (Some (str ''13:00'')) (Some []) =
       (case get_newest_index demo_api (str ''Test'') (Some [(KEYWORD, str ''news'')]) of
          None \<Rightarrow> Some ([GetNewestIndex], Inr [])
        | Some newest_index \<Rightarrow>
            Some (GetNewestIndex #
                    fst (fetch_posts demo_api (str ''Test'') (Some [(KEYWORD, str ''news'')])
                           [max 1 (newest_index - 2 + 1)..newest_index]),
                  Inr (snd (fetch_posts demo_api (str ''Test'') (Some [(KEYWORD, str ''news'')])
                              [max 1 (newest_index - 2 + 1)..newest_index]))))"
    by blast
  then have c: "search_by_title demo_api demo_lib (str ''Test'') (str ''news'') 2 (Some (str ''13:00'')) (Some []) =
       Some ([GetNewestIndex, GetPost 149, GetPost 150],
             Inr [post_dated ''M.150'' ''Sat Oct  4 13:30:00 2025''])"
    by (simp only: demo_newest option.case f fst_conv snd_conv)
  from t have "search_by_author demo_api demo_lib (str ''Test'') (str ''someone'') 2 (Some (str ''13:00'')) (Some []) =
       (case get_newest_index demo_api (str ''Test'') (Some [(AUTHOR, str ''someone'')]) of
          None \<Rightarrow> Some ([GetNewestIndex], Inr [])
        | Some newest_index \<Rightarrow>
            Some (GetNewestIndex #
                    fst (fetch_posts demo_api (str ''Test'') (Some [(AUTHOR, str ''someone'')])
                           [max 1 (newest_index - 2 + 1)..newest_index]),
                  Inr (snd (fetch_posts demo_api (str ''Test'') (Some [(AUTHOR, str ''someone'')])
                              [max 1 (newest_index - 2 + 1)..newest_index]))))"
    by blast
  then have d: "search_by_author demo_api demo_lib (str ''Test'') (str ''someone'') 2 (Some (str ''13:00'')) (Some []) =
       Some ([GetNewestIndex, GetPost 149, GetPost 150],
             Inr [post_dated ''M.150'' ''Sat Oct  4 13:30:00 2025''])"
    by (simp only: demo_newest option.case f fst_conv snd_conv)
  from t have "search_by_comment_content demo_api demo_lib (str ''Test'') (str ''news'') 2
         (Some (str ''13:00'')) (Some []) =
       (case get_newest_index demo_api (str ''Test'') None of
          None \<Rightarrow> Some ([GetNewestIndex], Inl PttError)
        | Some newest_index \<Rightarrow>
            Some (GetNewestIndex #
                    fst (fetch_posts demo_api (str ''Test'') None [max 1 (newest_index - 2 + 1)..newest_index]),
                  Inr (match_articles demo_lib (str ''news'')
                         (snd (fetch_posts demo_api (str ''Test'') None [max 1 (newest_index - 2 + 1)..newest_index]))
                         [])))"
    by blast
  then have "search_by_comment_content demo_api demo_lib (str ''Test'') (str ''news'') 2
         (Some (str ''13:00'')) (Some []) =
       Some ([GetNewestIndex, GetPost 149, GetPost 150],
             Inr (match_articles demo_lib (str ''news'')
                    [post_dated ''M.150'' ''Sat Oct  4 13:30:00 2025''] []))"
    by (simp only: demo_newest option.case f fst_conv snd_conv)
  then have e: "search_by_comment_content demo_api demo_lib (str ''Test'') (str ''news'') 2
         (Some (str ''13:00'')) (Some []) =
       Some ([GetNewestIndex, GetPost 149, GetPost 150], Inr [])"
    by (simp add: post_dated_def get_comments_def)
  from t have "search_comments_by_author demo_api demo_lib (str ''Test'') (str ''someone'')
         (Some (str ''13:00'')) (Some []) 2 =
       (case get_newest_index demo_api (str ''Test'') None of
          None \<Rightarrow> Some ([GetNewestIndex], Inl PttError)
        | Some newest_index \<Rightarrow>
            Some (GetNewestIndex #
                    fst (fetch_posts demo_api (str ''Test'') None [max 1 (newest_index - 2 + 1)..newest_index]),
                  Inr (match_author_articles demo_lib (str ''someone'')
                         (snd (fetch_posts demo_api (str ''Test'') None [max 1 (newest_index - 2 + 1)..newest_index]))
                         [])))"
    by blast
  then have "search_comments_by_author demo_api demo_lib (str ''Test'') (str ''someone'')
         (Some (str ''13:00'')) (Some []) 2 =
       Some ([GetNewestIndex, GetPost 149, GetPost 150],
             Inr (match_author_articles demo_lib (str ''someone'')
                    [post_dated ''M.150'' ''Sat Oct  4 13:30:00 2025''] []))"
    by (simp only: demo_newest option.case f fst_conv snd_conv)
  then have g: "search_comments_by_author demo_api demo_lib (str ''Test'') (str ''someone'')
         (Some (str ''13:00'')) (Some []) 2 =
       Some ([GetNewestIndex, GetPost 149, GetPost 150], Inr [])"
    by (simp add: post_dated_def get_comments_def)
  from h a b c d e g show ?thesis by simp
qed

subsection \<open>Calendar dates\<close>

lemma demo_strptime_day_eval:
  "demo_strptime_day (str ''2025-10-01'') = Some 739525"
  "demo_strptime_day (str ''2025-10-03'') = Some 739527"
  by (simp_all add: demo_strptime_day_def str_def)

lemma scan_indices_5: "scan_indices 5 = [5, 4, 3, 2]"
  by (simp add: scan_indices_def upto.simps)

text \<open>
  Claim C4 against the code: with the range from 2025-10-01 to 2025-10-03, a post of
  10:00 on the third of October lies in the calendar window, and
  \<open>get_articles_by_date_range\<close> leaves it out, the end of the range being the midnight
  that begins the end date. The scan stops at the post of the thirtieth of September.
\<close>

theorem date_range_drops_end_day:
  "get_articles_by_date_range october_api demo_lib (str ''Test'') (str ''2025-10-01'') (str ''2025-10-03'') =
     ([GetNewestIndex, GetPost 5, GetPost 4, GetPost 3],
      Inr [post_dated ''M.4'' ''Wed Oct  1 09:00:00 2025''])
   \<and> get_post october_api (str ''Test'') 5 None = Post (post_dated ''M.5'' ''Fri Oct  3 10:00:00 2025'')
   \<and> strptime_post demo_lib (get_date (post_dated ''M.5'' ''Fri Oct  3 10:00:00 2025'')) =
       Some (at_day 739527 10 0 0)
   \<and> spec_calendar_within 739525 739527 (at_day 739527 10 0 0)"
  by (simp add: get_articles_by_date_range_def demo_lib_def demo_strptime_day_eval scan_indices_5
        october_api_def post_dated_def get_date_def demo_strptime_post_eval at_day_def
        spec_calendar_within_def)

end
